theory Spec2Isabelle
  imports Main "HOL-Library.AList"
begin

section \<open>The turn-order engine of action-order-manager-v2.js\<close>

text \<open>
  A shallow embedding of the class \<open>ActionOrderManagerV2\<close>. Seats are JavaScript
  numbers holding integers (\<open>int\<close>), player names and statuses are strings, the
  instance is a record that every method takes and returns. A \<open>TypeError\<close> raised by
  a property read on \<open>undefined\<close> or by a call of a non-function is the value
  \<open>Inl TypeError\<close>. The plain objects used as dictionaries (\<open>playerStatus\<close>,
  \<open>playerActions\<close>, \<open>currentActionIndex\<close>) are the list of their own properties
  together with the properties every plain object inherits from \<open>Object.prototype\<close>:
  a read finds an inherited property when there is no own one, and a write to
  \<open>__proto__\<close> stores nothing. Console output is dropped.
\<close>

subsection \<open>Data\<close>

datatype error = TypeError

text \<open>An element of \<open>playersInHand\<close>: \<open>{name, seat}\<close>.\<close>

record player =
  name :: string
  seat :: int

text \<open>
  An element of the local array \<open>positions\<close> of \<open>createPreflopOrder\<close>:
  \<open>{player, seat, position, index}\<close>, where \<open>player\<close> is the result of
  \<open>seatMap.get(seat)\<close> and so may be \<open>undefined\<close> (\<open>None\<close>).
\<close>

record position_entry =
  player :: "player option"
  seat :: int
  position :: string
  index :: nat

text \<open>An element of an order table: \<open>{player, seat, position, priority}\<close>.\<close>

record slot =
  player :: string
  seat :: int
  position :: string
  priority :: nat

text \<open>
  An element of the \<open>actions\<close> array of \<open>isBettingRoundComplete\<close>: \<open>{player, action}\<close>.
  Either field may be missing (\<open>None\<close> is \<open>undefined\<close>).
\<close>

record action_entry =
  player :: "string option"
  action :: "string option"

text \<open>
  The argument \<open>actions\<close> of \<open>isBettingRoundComplete\<close>: an array of entries, as the
  doc comment of the method has it, or a plain object from player names to actions, as
  the specification passes it.
\<close>

datatype actions_arg =
  ActionArray "action_entry list"
| ActionObject "(string \<times> string) list"

record absolute_order =
  preflop :: "slot list"
  postflop :: "slot list"

subsection \<open>JavaScript primitives\<close>

text \<open>
  \<open>Map.prototype.set\<close> on an insertion-ordered association list: an existing key keeps
  its place and takes the new value, a new key goes to the end.
\<close>

definition map_set :: "('k \<times> 'v) list \<Rightarrow> 'k \<Rightarrow> 'v \<Rightarrow> ('k \<times> 'v) list" where
  "map_set m k v = AList.update k v m"

definition map_get :: "('k \<times> 'v) list \<Rightarrow> 'k \<Rightarrow> 'v option" where
  "map_get m k = map_of m k"

definition map_keys :: "('k \<times> 'v) list \<Rightarrow> 'k list" where
  "map_keys m = map fst m"

text \<open>\<open>Array.prototype.indexOf\<close>: the first index of the element, or \<open>-1\<close>.\<close>

fun indexOf :: "int list \<Rightarrow> int \<Rightarrow> int" where
  "indexOf [] x = - 1"
| "indexOf (y # ys) x =
     (if y = x then 0
      else (let r = indexOf ys x in if r = - 1 then - 1 else r + 1))"

text \<open>An array read \<open>xs[i]\<close>: \<open>undefined\<close> (\<open>None\<close>) out of range.\<close>

definition js_nth :: "'a list \<Rightarrow> nat \<Rightarrow> 'a option" where
  "js_nth xs i = (if i < length xs then Some (xs ! i) else None)"

text \<open>
  The decimal digits of a number, as the template literal \<open>`MP${i-2}`\<close> prints a
  non-negative integer.
\<close>

fun string_of_nat :: "nat \<Rightarrow> string" where
  "string_of_nat n =
     (if n < 10 then [''0123456789'' ! n]
      else string_of_nat (n div 10) @ [''0123456789'' ! (n mod 10)])"

declare string_of_nat.simps [simp del]

text \<open>JavaScript truthiness of a string-valued property that may be missing.\<close>

fun truthy :: "string option \<Rightarrow> bool" where
  "truthy None = False"
| "truthy (Some s) = (s \<noteq> [])"

subsection \<open>Plain objects\<close>

text \<open>
  The property names of \<open>Object.prototype\<close>, which every object literal inherits.
\<close>

definition object_prototype_keys :: "string list" where
  "object_prototype_keys =
     [''constructor'', ''__defineGetter__'', ''__defineSetter__'', ''hasOwnProperty'',
      ''__lookupGetter__'', ''__lookupSetter__'', ''isPrototypeOf'',
      ''propertyIsEnumerable'', ''toString'', ''valueOf'', ''__proto__'',
      ''toLocaleString'']"

text \<open>
  What a read \<open>obj[k]\<close> finds: the value of an own property, an inherited property (a
  function, or the prototype object for \<open>__proto__\<close>), or nothing (\<open>undefined\<close>).
\<close>

datatype 'v jsprop = Own 'v | Inherited | Absent

definition js_get :: "(string \<times> 'v) list \<Rightarrow> string \<Rightarrow> 'v jsprop" where
  "js_get obj k =
     (case map_get obj k of
        Some v \<Rightarrow> Own v
      | None \<Rightarrow> if k \<in> set object_prototype_keys then Inherited else Absent)"

text \<open>
  A write \<open>obj[k] = v\<close> of a primitive value (a string, a number or \<open>undefined\<close>):
  the setter of \<open>__proto__\<close> ignores a primitive, any other key becomes or stays an own
  property, also when it shadows an inherited one.
\<close>

definition js_set :: "(string \<times> 'v) list \<Rightarrow> string \<Rightarrow> 'v \<Rightarrow> (string \<times> 'v) list" where
  "js_set obj k v = (if k = ''__proto__'' then obj else map_set obj k v)"

text \<open>\<open>Object.keys(obj)\<close>: the own property names.\<close>

definition js_keys :: "(string \<times> 'v) list \<Rightarrow> string list" where
  "js_keys obj = map_keys obj"

text \<open>
  \<open>x !== undefined\<close> for the result of a read whose own values may be \<open>undefined\<close>.
\<close>

fun defined :: "'v option jsprop \<Rightarrow> bool" where
  "defined (Own None) = False"
| "defined (Own (Some v)) = True"
| "defined Inherited = True"
| "defined Absent = False"

subsection \<open>The seat map and the sorted occupied seats\<close>

text \<open>
  Lines 80-87 and 151-158: \<open>players.forEach(p => seatMap.set(p.seat, p))\<close>, then
  \<open>Array.from(seatMap.keys()).sort((a, b) => a - b)\<close>.
\<close>

definition build_seatMap :: "player list \<Rightarrow> (int \<times> player) list" where
  "build_seatMap players = foldl (\<lambda>m p. map_set m (player.seat p) p) [] players"

definition occupiedSeats_of :: "(int \<times> player) list \<Rightarrow> int list" where
  "occupiedSeats_of seatMap = sort (map_keys seatMap)"

subsection \<open>createPreflopOrder\<close>

text \<open>
  Lines 97-115, the loop filling \<open>positions\<close>. \<open>seatIndex\<close> is a remainder by
  \<open>totalPlayers = occupiedSeats.length\<close>, so the read of \<open>occupiedSeats\<close> is in range.
  The comparisons with \<open>totalPlayers - 1\<close> and \<open>totalPlayers - 2\<close> are made on
  integers, as JavaScript makes them.
\<close>

function preflop_positions ::
  "(int \<times> player) list \<Rightarrow> int list \<Rightarrow> nat \<Rightarrow> int \<Rightarrow> nat \<Rightarrow> position_entry list
     \<Rightarrow> position_entry list" where
  "preflop_positions seatMap occupiedSeats totalPlayers btnIndex i positions =
     (if i < totalPlayers then
        (let seatIndex = nat ((btnIndex + int i + 1) mod int totalPlayers);
             seat_i = occupiedSeats ! seatIndex;
             player_i = map_get seatMap seat_i;
             position_i =
               (if i = 0 then ''SB''
                else if i = 1 then ''BB''
                else if int i = int totalPlayers - 1 then ''BTN''
                else if i = 2 then ''UTG''
                else if i = 3 then ''UTG+1''
                else if i = 4 then ''MP1''
                else if i = 5 then ''MP2''
                else if int i = int totalPlayers - 2 then ''CO''
                else ''MP'' @ string_of_nat (i - 2))
         in preflop_positions seatMap occupiedSeats totalPlayers btnIndex (i + 1)
              (positions @
                 [\<lparr>position_entry.player = player_i, seat = seat_i,
                   position = position_i, index = i\<rparr>]))
      else positions)"
  by pat_completeness auto
termination
  by (relation "measure (\<lambda>(seatMap, occupiedSeats, totalPlayers, btnIndex, i, positions).
        totalPlayers - i)") auto

declare preflop_positions.simps [simp del]

text \<open>
  Lines 119-126, the loop from \<open>i = 2\<close>: \<open>positions[i].player.name\<close> raises when
  \<open>positions[i]\<close> or its \<open>player\<close> is \<open>undefined\<close>.
\<close>

function preflop_push_loop ::
  "position_entry list \<Rightarrow> nat \<Rightarrow> nat \<Rightarrow> slot list \<Rightarrow> error + slot list" where
  "preflop_push_loop positions totalPlayers i order =
     (if i < totalPlayers then
        (case js_nth positions i of
           None \<Rightarrow> Inl TypeError
         | Some e \<Rightarrow>
             (case position_entry.player e of
                None \<Rightarrow> Inl TypeError
              | Some p \<Rightarrow>
                  preflop_push_loop positions totalPlayers (i + 1)
                    (order @
                       [\<lparr>slot.player = name p, seat = position_entry.seat e,
                         position = position_entry.position e,
                         priority = length order\<rparr>])))
      else Inr order)"
  by pat_completeness auto
termination
  by (relation "measure (\<lambda>(positions, totalPlayers, i, order). totalPlayers - i)") auto

declare preflop_push_loop.simps [simp del]

text \<open>
  Lines 129-141, the two pushes after the loop: the slot of \<open>positions[k]\<close> with a
  literal position label.
\<close>

definition push_blind ::
  "position_entry list \<Rightarrow> nat \<Rightarrow> string \<Rightarrow> slot list \<Rightarrow> error + slot list" where
  "push_blind positions k label order =
     (case js_nth positions k of
        None \<Rightarrow> Inl TypeError
      | Some e \<Rightarrow>
          (case position_entry.player e of
             None \<Rightarrow> Inl TypeError
           | Some p \<Rightarrow>
               Inr (order @
                      [\<lparr>slot.player = name p, seat = position_entry.seat e,
                        position = label, priority = length order\<rparr>])))"

definition createPreflopOrder :: "player list \<Rightarrow> int \<Rightarrow> error + slot list" where
  "createPreflopOrder players buttonPosition =
     (let seatMap = build_seatMap players;
          occupiedSeats = occupiedSeats_of seatMap;
          totalPlayers = length occupiedSeats;
          btnIndex = indexOf occupiedSeats buttonPosition
      in if btnIndex = - 1 then Inr []
         else
           (let positions =
                  preflop_positions seatMap occupiedSeats totalPlayers btnIndex 0 []
            in case preflop_push_loop positions totalPlayers 2 [] of
                 Inl e \<Rightarrow> Inl e
               | Inr order1 \<Rightarrow>
                   (case push_blind positions 0 ''SB'' order1 of
                      Inl e \<Rightarrow> Inl e
                    | Inr order2 \<Rightarrow> push_blind positions 1 ''BB'' order2)))"

subsection \<open>createPostflopOrder\<close>

text \<open>Lines 168-190: one loop, \<open>player.name\<close> raises when the seat has no player.\<close>

function postflop_loop ::
  "(int \<times> player) list \<Rightarrow> int list \<Rightarrow> nat \<Rightarrow> int \<Rightarrow> nat \<Rightarrow> slot list
     \<Rightarrow> error + slot list" where
  "postflop_loop seatMap occupiedSeats totalPlayers btnIndex i order =
     (if i < totalPlayers then
        (let seatIndex = nat ((btnIndex + int i + 1) mod int totalPlayers);
             seat_i = occupiedSeats ! seatIndex;
             player_i = map_get seatMap seat_i;
             position_i =
               (if i = 0 then ''SB''
                else if i = 1 then ''BB''
                else if int i = int totalPlayers - 1 then ''BTN''
                else if i = 2 then ''UTG''
                else if i = 3 then ''UTG+1''
                else if i = 4 then ''MP1''
                else if i = 5 then ''MP2''
                else if int i = int totalPlayers - 2 then ''CO''
                else ''MP'' @ string_of_nat (i - 2))
         in case player_i of
              None \<Rightarrow> Inl TypeError
            | Some p \<Rightarrow>
                postflop_loop seatMap occupiedSeats totalPlayers btnIndex (i + 1)
                  (order @
                     [\<lparr>slot.player = name p, seat = seat_i,
                       position = position_i, priority = i\<rparr>]))
      else Inr order)"
  by pat_completeness auto
termination
  by (relation "measure (\<lambda>(seatMap, occupiedSeats, totalPlayers, btnIndex, i, order).
        totalPlayers - i)") auto

declare postflop_loop.simps [simp del]

definition createPostflopOrder :: "player list \<Rightarrow> int \<Rightarrow> error + slot list" where
  "createPostflopOrder players buttonPosition =
     (let seatMap = build_seatMap players;
          occupiedSeats = occupiedSeats_of seatMap;
          totalPlayers = length occupiedSeats;
          btnIndex = indexOf occupiedSeats buttonPosition
      in if btnIndex = - 1 then Inr []
         else postflop_loop seatMap occupiedSeats totalPlayers btnIndex 0 [])"

subsection \<open>The manager\<close>

text \<open>
  A cursor of \<open>currentActionIndex\<close>: a number, or \<open>NaN\<close> after \<open>++\<close> on a key
  that was \<open>undefined\<close>.
\<close>

datatype jsnum = Num nat | NaN

text \<open>What \<open>getCurrentPlayer\<close> returns: \<open>null\<close>, \<open>undefined\<close> or a slot.\<close>

datatype current_player = Null | Undefined | Slot slot

record manager =
  handNumber :: "string option"
  buttonPosition :: int
  absoluteOrder :: absolute_order
  currentStreet :: string
  currentActionIndex :: "(string \<times> jsnum) list"
  playerStatus :: "(string \<times> string) list"

text \<open>
  An element of the result of \<open>getActionOrder\<close>: the slot spread into a new object
  together with \<open>status\<close>, whatever the read of the registry finds, and \<open>canAct\<close>.
\<close>

record order_entry = slot +
  status :: "string jsprop"
  canAct :: bool

definition initial_index :: "(string \<times> jsnum) list" where
  "initial_index =
     [(''preflop'', Num 0), (''flop'', Num 0), (''turn'', Num 0), (''river'', Num 0)]"

text \<open>The constructor, lines 9-33.\<close>

definition new_manager :: manager where
  "new_manager =
     \<lparr>handNumber = None, buttonPosition = 1,
      absoluteOrder = \<lparr>preflop = [], postflop = []\<rparr>,
      currentStreet = ''preflop'',
      currentActionIndex = initial_index,
      playerStatus = []\<rparr>"

text \<open>
  \<open>initializeHand\<close>, lines 41-73. An exception of \<open>createPreflopOrder\<close> or
  \<open>createPostflopOrder\<close> leaves the method before \<open>absoluteOrder\<close> is assigned; the
  model returns the error alone. \<open>currentStreet\<close> is not assigned.
\<close>

definition initializeHand ::
  "manager \<Rightarrow> player list \<Rightarrow> int \<Rightarrow> string \<Rightarrow> error + manager" where
  "initializeHand this playersInHand buttonPosition' handNumber' =
     (let registry = foldl (\<lambda>m p. js_set m (name p) ''active'') [] playersInHand
      in case createPreflopOrder playersInHand buttonPosition' of
           Inl e \<Rightarrow> Inl e
         | Inr pre \<Rightarrow>
             (case createPostflopOrder playersInHand buttonPosition' of
                Inl e \<Rightarrow> Inl e
              | Inr post \<Rightarrow>
                  Inr (this\<lparr>handNumber := Some handNumber',
                             buttonPosition := buttonPosition',
                             playerStatus := registry,
                             currentActionIndex := initial_index,
                             absoluteOrder := \<lparr>preflop = pre, postflop = post\<rparr>\<rparr>)))"

text \<open>
  \<open>getCurrentPlayer\<close>, lines 199-217. A street that is no own key of
  \<open>currentActionIndex\<close> reads \<open>undefined\<close> or an inherited function or object; the
  remainder of any of these, or of \<open>NaN\<close>, is \<open>NaN\<close>, and the array read at
  \<open>NaN\<close> gives \<open>undefined\<close>.
\<close>

definition getCurrentPlayer :: "manager \<Rightarrow> string \<Rightarrow> current_player" where
  "getCurrentPlayer this street =
     (let orderTable = (if street = ''preflop'' then preflop (absoluteOrder this)
                        else postflop (absoluteOrder this));
          activePlayers =
            filter (\<lambda>p. js_get (playerStatus this) (slot.player p) = Own ''active'')
              orderTable
      in if length activePlayers = 0 then Null
         else (case js_get (currentActionIndex this) street of
                 Own (Num k) \<Rightarrow>
                   (case js_nth activePlayers (k mod length activePlayers) of
                      None \<Rightarrow> Undefined
                    | Some p \<Rightarrow> Slot p)
               | _ \<Rightarrow> Undefined))"

text \<open>
  \<open>moveToNextPlayer\<close>, lines 223-232. \<open>++\<close> on anything but a number gives
  \<open>NaN\<close>.
\<close>

definition moveToNextPlayer :: "manager \<Rightarrow> string \<Rightarrow> manager \<times> current_player" where
  "moveToNextPlayer this street =
     (let this' = this\<lparr>currentActionIndex :=
                    js_set (currentActionIndex this) street
                      (case js_get (currentActionIndex this) street of
                         Own (Num k) \<Rightarrow> Num (k + 1)
                       | _ \<Rightarrow> NaN)\<rparr>
      in (this', getCurrentPlayer this' street))"

text \<open>
  \<open>updatePlayerStatus\<close>, lines 239-252: the new state and the number of own keys of
  the registry whose status is \<open>'active'\<close>.
\<close>

definition updatePlayerStatus :: "manager \<Rightarrow> string \<Rightarrow> string \<Rightarrow> manager \<times> nat" where
  "updatePlayerStatus this playerName status' =
     (let this' = this\<lparr>playerStatus := js_set (playerStatus this) playerName status'\<rparr>;
          activePlayers =
            filter (\<lambda>p. js_get (playerStatus this') p = Own ''active'')
              (js_keys (playerStatus this'))
      in (this', length activePlayers))"

text \<open>\<open>advanceToStreet\<close>, lines 258-271.\<close>

definition advanceToStreet :: "manager \<Rightarrow> string \<Rightarrow> manager \<times> current_player" where
  "advanceToStreet this newStreet =
     (let this' = this\<lparr>currentStreet := newStreet,
                       currentActionIndex :=
                         js_set (currentActionIndex this) newStreet (Num 0)\<rparr>
      in (this', getCurrentPlayer this' newStreet))"

text \<open>\<open>getActionOrder\<close>, lines 277-287.\<close>

definition getActionOrder :: "manager \<Rightarrow> string \<Rightarrow> order_entry list" where
  "getActionOrder this street =
     (let orderTable = (if street = ''preflop'' then preflop (absoluteOrder this)
                        else postflop (absoluteOrder this))
      in map (\<lambda>p. \<lparr>slot.player = slot.player p, seat = slot.seat p,
                    position = slot.position p, priority = priority p,
                    status = js_get (playerStatus this) (slot.player p),
                    canAct = (js_get (playerStatus this) (slot.player p) = Own ''active'')\<rparr>)
           orderTable)"

text \<open>
  \<open>isBettingRoundComplete\<close>, lines 294-322. When more than one player can act,
  \<open>actions.forEach\<close> is called: on a plain object it is \<open>undefined\<close>, or a string when a
  player is named \<open>forEach\<close>, and the call raises a \<open>TypeError\<close>. An entry whose
  \<open>player\<close> is falsy (missing, or the empty string) is skipped by the guard of line 306;
  \<open>playerActions\<close> is an object literal.
\<close>

definition isBettingRoundComplete :: "manager \<Rightarrow> string \<Rightarrow> actions_arg \<Rightarrow> error + bool" where
  "isBettingRoundComplete this street actions =
     (let activePlayers = filter canAct (getActionOrder this street)
      in if length activePlayers \<le> 1 then Inr True
         else
           (case actions of
              ActionObject obj \<Rightarrow> Inl TypeError
            | ActionArray entries \<Rightarrow>
                (let playerActions =
                       foldl (\<lambda>m a. if truthy (action_entry.player a)
                                     then js_set m (the (action_entry.player a)) (action a)
                                     else m)
                         [] entries;
                     allActed =
                       list_all (\<lambda>p. defined (js_get playerActions (slot.player p)))
                         activePlayers
                 in if \<not> allActed then Inr False else Inr True)))"

text \<open>\<open>endHand\<close>, lines 327-345.\<close>

definition endHand :: "manager \<Rightarrow> manager" where
  "endHand this =
     this\<lparr>handNumber := None,
          absoluteOrder := \<lparr>preflop = [], postflop = []\<rparr>,
          currentActionIndex := initial_index,
          playerStatus := [],
          currentStreet := ''preflop''\<rparr>"

section \<open>Vocabulary of the specification\<close>

text \<open>The occupied seats in ascending order; their number is \<open>N\<close>.\<close>

definition occupied :: "player list \<Rightarrow> int list" where
  "occupied ps = sorted_list_of_set (player.seat ` set ps)"

text \<open>The entry that holds a seat: the last one of the list with that seat number.\<close>

definition holder :: "player list \<Rightarrow> int \<Rightarrow> player" where
  "holder ps s = last (filter (\<lambda>p. player.seat p = s) ps)"

text \<open>
  Seat-rotation order: clockwise from the seat immediately after the button, that is,
  the occupied seats above the button in ascending order, then those up to and including
  the button. Its element \<open>i\<close> is the seat of relative index \<open>i\<close>.
\<close>

definition rotation :: "player list \<Rightarrow> int \<Rightarrow> int list" where
  "rotation ps b =
     filter (\<lambda>s. b < s) (occupied ps) @ filter (\<lambda>s. s \<le> b) (occupied ps)"

text \<open>
  The position label of the specification (section 4.1): a list of rules, of which the
  first whose condition holds gives the label, and \<open>MP(i-2)\<close> when none holds.
\<close>

definition spec_rules :: "nat \<Rightarrow> nat \<Rightarrow> (bool \<times> string) list" where
  "spec_rules N i =
     [(i = 0, ''SB''), (i = 1, ''BB''), (int i = int N - 1, ''BTN''), (i = 2, ''UTG''),
      (i = 3, ''UTG+1''), (i = 4, ''MP1''), (i = 5, ''MP2''), (int i = int N - 2, ''CO'')]"

definition spec_label :: "nat \<Rightarrow> nat \<Rightarrow> string" where
  "spec_label N i =
     (case find fst (spec_rules N i) of
        Some r \<Rightarrow> snd r
      | None \<Rightarrow> ''MP'' @ string_of_nat (i - 2))"

text \<open>The table a street selects, and its slots whose player is active, in table order.\<close>

definition orderTable :: "manager \<Rightarrow> string \<Rightarrow> slot list" where
  "orderTable this street =
     (if street = ''preflop'' then preflop (absoluteOrder this)
      else postflop (absoluteOrder this))"

definition activeSlots :: "manager \<Rightarrow> string \<Rightarrow> slot list" where
  "activeSlots this street =
     filter (\<lambda>p. js_get (playerStatus this) (slot.player p) = Own ''active'')
       (orderTable this street)"

text \<open>
  The entries of an \<open>actions\<close> array that name a player, and "the player has acted":
  the name is not empty, there is an entry that names the player, and the last such
  entry carries an action.
\<close>

definition entries_for :: "action_entry list \<Rightarrow> string \<Rightarrow> action_entry list" where
  "entries_for entries n = filter (\<lambda>a. action_entry.player a = Some n) entries"

definition acted :: "action_entry list \<Rightarrow> string \<Rightarrow> bool" where
  "acted entries n =
     (n \<noteq> [] \<and> entries_for entries n \<noteq> [] \<and> action (last (entries_for entries n)) \<noteq> None)"

text \<open>
  The condition of the claim as the specification words it: the player has a recorded
  entry in \<open>actions\<close>, be it an array of entries or an object keyed by player.
\<close>

fun has_entry :: "actions_arg \<Rightarrow> string \<Rightarrow> bool" where
  "has_entry (ActionArray entries) n = list_ex (\<lambda>a. action_entry.player a = Some n) entries"
| "has_entry (ActionObject obj) n = list_ex (\<lambda>kv. fst kv = n) obj"

definition every_active_has_entry :: "manager \<Rightarrow> string \<Rightarrow> actions_arg \<Rightarrow> bool" where
  "every_active_has_entry this street actions =
     list_all (\<lambda>p. has_entry actions (slot.player p)) (activeSlots this street)"

text \<open>The four streets, and a manager whose four cursors are numbers.\<close>

definition streets :: "string list" where
  "streets = [''preflop'', ''flop'', ''turn'', ''river'']"

definition is_number :: "jsnum jsprop \<Rightarrow> bool" where
  "is_number v = (case v of Own (Num k) \<Rightarrow> True | _ \<Rightarrow> False)"

definition cursors_ok :: "manager \<Rightarrow> bool" where
  "cursors_ok this = list_all (\<lambda>st. is_number (js_get (currentActionIndex this) st)) streets"

subsection \<open>Closed forms used in the proofs\<close>

definition rel_seat :: "int list \<Rightarrow> nat \<Rightarrow> int \<Rightarrow> nat \<Rightarrow> int" where
  "rel_seat occ N k i = occ ! nat ((k + int i + 1) mod int N)"

definition slot_at :: "player list \<Rightarrow> int \<Rightarrow> nat \<Rightarrow> string \<Rightarrow> nat \<Rightarrow> slot" where
  "slot_at ps b i label pr =
     \<lparr>slot.player = name (holder ps (rotation ps b ! i)), seat = rotation ps b ! i,
      position = label, priority = pr\<rparr>"

definition preflop_table :: "player list \<Rightarrow> int \<Rightarrow> slot list" where
  "preflop_table ps b =
     map (\<lambda>i. slot_at ps b i (spec_label (card (player.seat ` set ps)) i) (i - 2))
       [2..<card (player.seat ` set ps)]
     @ [slot_at ps b 0 ''SB'' (card (player.seat ` set ps) - 2),
        slot_at ps b 1 ''BB'' (card (player.seat ` set ps) - 1)]"

definition postflop_table :: "player list \<Rightarrow> int \<Rightarrow> slot list" where
  "postflop_table ps b =
     map (\<lambda>i. slot_at ps b i (spec_label (card (player.seat ` set ps)) i) i)
       [0..<card (player.seat ` set ps)]"

subsection \<open>Concrete hands\<close>

text \<open>The scenario of the specification: seats 1, 3, 5 and 7, button on seat 7.\<close>

definition example_players :: "player list" where
  "example_players =
     [\<lparr>name = ''P1'', player.seat = 1\<rparr>, \<lparr>name = ''P3'', player.seat = 3\<rparr>,
      \<lparr>name = ''P5'', player.seat = 5\<rparr>, \<lparr>name = ''P7'', player.seat = 7\<rparr>]"

text \<open>A heads-up hand.\<close>

definition heads_up_players :: "player list" where
  "heads_up_players = [\<lparr>name = ''A'', player.seat = 1\<rparr>, \<lparr>name = ''B'', player.seat = 2\<rparr>]"

text \<open>A hand whose first player has the empty name.\<close>

definition unnamed_players :: "player list" where
  "unnamed_players = [\<lparr>name = [], player.seat = 1\<rparr>, \<lparr>name = ''B'', player.seat = 2\<rparr>]"

text \<open>Hands in which two entries share seat 1.\<close>

definition shared_seat_players :: "player list" where
  "shared_seat_players =
     [\<lparr>name = ''A'', player.seat = 1\<rparr>, \<lparr>name = ''B'', player.seat = 1\<rparr>,
      \<lparr>name = ''C'', player.seat = 2\<rparr>]"

definition one_seat_players :: "player list" where
  "one_seat_players = [\<lparr>name = ''A'', player.seat = 1\<rparr>, \<lparr>name = ''B'', player.seat = 1\<rparr>]"

text \<open>
  The scenario's hand after the player of seat 5 has folded; the same hand four
  \<open>moveToNextPlayer('preflop')\<close> later; the hand once seat 7 has folded too and seat 1
  is all-in; and the hand once seat 3 is all-in as well.
\<close>

definition example_hand :: manager where
  "example_hand =
     (case initializeHand new_manager example_players 7 ''1'' of
        Inr this \<Rightarrow> fst (updatePlayerStatus this ''P5'' ''folded'')
      | Inl e \<Rightarrow> new_manager)"

definition example_hand_later :: manager where
  "example_hand_later =
     ((\<lambda>this. fst (moveToNextPlayer this ''preflop'')) ^^ 4) example_hand"

definition example_hand_one_left :: manager where
  "example_hand_one_left =
     fst (updatePlayerStatus (fst (updatePlayerStatus example_hand ''P7'' ''folded''))
            ''P1'' ''allin'')"

definition example_hand_none_active :: manager where
  "example_hand_none_active = fst (updatePlayerStatus example_hand_one_left ''P3'' ''allin'')"

definition example_actions :: "action_entry list" where
  "example_actions =
     [\<lparr>action_entry.player = Some ''P1'', action = Some ''call''\<rparr>,
      \<lparr>action_entry.player = Some ''P3'', action = Some ''check''\<rparr>,
      \<lparr>action_entry.player = Some ''P7'', action = Some ''call''\<rparr>]"

text \<open>
  The same actions as the object keyed by player of the specification's scenario, and
  as an array whose entry for \<open>P7\<close> has no \<open>action\<close>.
\<close>

definition example_actions_object :: "(string \<times> string) list" where
  "example_actions_object = [(''P1'', ''call''), (''P3'', ''check''), (''P7'', ''call'')]"

definition example_actions_blank :: "action_entry list" where
  "example_actions_blank =
     [\<lparr>action_entry.player = Some ''P1'', action = Some ''call''\<rparr>,
      \<lparr>action_entry.player = Some ''P3'', action = Some ''check''\<rparr>,
      \<lparr>action_entry.player = Some ''P7'', action = None\<rparr>]"

text \<open>The hand of \<open>unnamed_players\<close> with the button on seat 1, and an action of each.\<close>

definition unnamed_hand :: manager where
  "unnamed_hand =
     (case initializeHand new_manager unnamed_players 1 ''1'' of
        Inr this \<Rightarrow> this
      | Inl e \<Rightarrow> new_manager)"

definition unnamed_actions :: "action_entry list" where
  "unnamed_actions =
     [\<lparr>action_entry.player = Some [], action = Some ''call''\<rparr>,
      \<lparr>action_entry.player = Some ''B'', action = Some ''check''\<rparr>]"

text \<open>
  A hand whose first player is named \<open>constructor\<close>, with the button on seat 1, and an
  action of the other player only.
\<close>

definition inherited_name_players :: "player list" where
  "inherited_name_players =
     [\<lparr>name = ''constructor'', player.seat = 1\<rparr>, \<lparr>name = ''B'', player.seat = 2\<rparr>]"

definition inherited_name_hand :: manager where
  "inherited_name_hand =
     (case initializeHand new_manager inherited_name_players 1 ''1'' of
        Inr this \<Rightarrow> this
      | Inl e \<Rightarrow> new_manager)"

definition inherited_name_actions :: "action_entry list" where
  "inherited_name_actions = [\<lparr>action_entry.player = Some ''B'', action = Some ''check''\<rparr>]"

text \<open>A hand in which two entries share seat 1 and the first is named \<open>__proto__\<close>.\<close>

definition proto_players :: "player list" where
  "proto_players =
     [\<lparr>name = ''__proto__'', player.seat = 1\<rparr>, \<lparr>name = ''B'', player.seat = 1\<rparr>,
      \<lparr>name = ''C'', player.seat = 2\<rparr>]"

section \<open>Properties of the primitives\<close>

lemma map_of_map_set: "map_of (map_set m k v) = (map_of m)(k \<mapsto> v)"
  by (rule ext) (simp add: map_set_def update_conv)

lemma map_get_map_set: "map_get (map_set m k v) k' = (if k' = k then Some v else map_get m k')"
  by (simp add: map_get_def map_of_map_set)

lemma keys_map_set: "fst ` set (map_set m k v) = insert k (fst ` set m)"
  using dom_update [of k v m] by (simp add: map_set_def dom_map_of_conv_image_fst)

lemma distinct_map_set: "distinct (map fst m) \<Longrightarrow> distinct (map fst (map_set m k v))"
  by (simp add: map_set_def distinct_update)

lemma indexOf_absent: "(indexOf xs x = - 1) = (x \<notin> set xs)"
  and indexOf_lower: "- 1 \<le> indexOf xs x"
  by (induction xs) (auto simp: Let_def)

lemma indexOf_present:
  "x \<in> set xs \<Longrightarrow>
     0 \<le> indexOf xs x \<and> nat (indexOf xs x) < length xs \<and> xs ! nat (indexOf xs x) = x"
proof (induction xs)
  case Nil
  then show ?case by simp
next
  case (Cons y ys)
  show ?case
  proof (cases "y = x")
    case True
    then show ?thesis by simp
  next
    case False
    with Cons.prems have m: "x \<in> set ys" by simp
    from Cons.IH [OF m] have ih: "0 \<le> indexOf ys x" "nat (indexOf ys x) < length ys"
      "ys ! nat (indexOf ys x) = x" by simp_all
    from ih(1) have ne: "indexOf ys x \<noteq> - 1" by simp
    have n: "nat (indexOf ys x + 1) = Suc (nat (indexOf ys x))" using ih(1) by simp
    show ?thesis using False ih ne n by (simp add: Let_def)
  qed
qed

section \<open>The seat map\<close>

lemma map_of_foldl_set:
  "map_of (foldl (\<lambda>m p. map_set m (player.seat p) p) m0 ps) s =
     (if s \<in> player.seat ` set ps then Some (holder ps s) else map_of m0 s)"
proof (induction ps arbitrary: m0)
  case Nil
  then show ?case by simp
next
  case (Cons p ps)
  show ?case
    by (auto simp: Cons.IH map_of_map_set holder_def filter_empty_conv)
qed

lemma keys_foldl_set:
  "set (map fst (foldl (\<lambda>m p. map_set m (player.seat p) p) m0 ps)) =
     set (map fst m0) \<union> player.seat ` set ps"
  by (induction ps arbitrary: m0) (auto simp: keys_map_set)

lemma distinct_foldl_set:
  "distinct (map fst m0) \<Longrightarrow>
     distinct (map fst (foldl (\<lambda>m p. map_set m (player.seat p) p) m0 ps))"
  by (induction ps arbitrary: m0) (auto simp: distinct_map_set)

lemma seatMap_get:
  "map_get (build_seatMap ps) s =
     (if s \<in> player.seat ` set ps then Some (holder ps s) else None)"
  by (simp add: map_get_def build_seatMap_def map_of_foldl_set)

lemma occupiedSeats_eq: "occupiedSeats_of (build_seatMap ps) = occupied ps"
proof -
  let ?ks = "map_keys (build_seatMap ps)"
  have d: "distinct ?ks"
    by (simp add: map_keys_def build_seatMap_def distinct_foldl_set)
  have s: "set ?ks = player.seat ` set ps"
    using keys_foldl_set [of "[]" ps] by (simp add: map_keys_def build_seatMap_def)
  have "sorted_list_of_set (set ?ks) = sort (remdups ?ks)"
    by (rule sorted_list_of_set_sort_remdups)
  with d s show ?thesis
    by (simp add: occupiedSeats_of_def occupied_def distinct_remdups_id)
qed

lemma occupied_props:
  "sorted (occupied ps)" "distinct (occupied ps)" "set (occupied ps) = player.seat ` set ps"
  "length (occupied ps) = card (player.seat ` set ps)"
  by (simp_all add: occupied_def)

text \<open>Reads and writes of a plain object.\<close>

lemma js_get_js_set:
  "js_get (js_set obj k v) k' =
     (if k' = k \<and> k \<noteq> ''__proto__'' then Own v else js_get obj k')"
  by (simp add: js_get_def js_set_def map_get_map_set)

lemma js_get_empty:
  "js_get [] k = (if k \<in> set object_prototype_keys then Inherited else Absent)"
  by (simp add: js_get_def map_get_def)

lemma js_keys_js_set:
  "set (js_keys (js_set obj k v)) =
     (if k = ''__proto__'' then set (js_keys obj) else insert k (set (js_keys obj)))"
  by (simp add: js_keys_def js_set_def map_keys_def keys_map_set)

lemma proto_inherited: "''__proto__'' \<in> set object_prototype_keys"
  by (simp add: object_prototype_keys_def)

text \<open>The registry that \<open>initializeHand\<close> builds.\<close>

lemma registry_get:
  "js_get (foldl (\<lambda>m p. js_set m (name p) ''active'') m0 ps) n =
     (if n \<in> name ` set ps \<and> n \<noteq> ''__proto__'' then Own ''active'' else js_get m0 n)"
  by (induction ps arbitrary: m0) (auto simp: js_get_js_set)

lemma registry_keys:
  "set (js_keys (foldl (\<lambda>m p. js_set m (name p) ''active'') m0 ps)) =
     set (js_keys m0) \<union> (name ` set ps - {''__proto__''})"
  by (induction ps arbitrary: m0) (auto simp: js_keys_js_set)

section \<open>The label rule and the loop functions\<close>

lemma spec_label_chain:
  "spec_label N i =
     (if i = 0 then ''SB''
      else if i = 1 then ''BB''
      else if int i = int N - 1 then ''BTN''
      else if i = 2 then ''UTG''
      else if i = 3 then ''UTG+1''
      else if i = 4 then ''MP1''
      else if i = 5 then ''MP2''
      else if int i = int N - 2 then ''CO''
      else ''MP'' @ string_of_nat (i - 2))"
  by (simp add: spec_label_def spec_rules_def)

lemma preflop_positions_eq:
  "preflop_positions sm occ N k i acc =
     acc @ map (\<lambda>j. \<lparr>position_entry.player = map_get sm (rel_seat occ N k j),
                      seat = rel_seat occ N k j, position = spec_label N j, index = j\<rparr>)
             [i..<N]"
proof (induction sm occ N k i acc rule: preflop_positions.induct)
  case (1 sm occ N k i acc)
  show ?case
  proof (cases "i < N")
    case True
    have u: "[i..<N] = i # [Suc i..<N]" using True by (rule upt_conv_Cons)
    show ?thesis
      apply (subst preflop_positions.simps)
      using True 1 [OF True refl refl refl refl]
      apply (simp add: Let_def u rel_seat_def)
      apply (simp add: spec_label_chain)
      done
  next
    case False
    then show ?thesis by (subst preflop_positions.simps) simp
  qed
qed

lemma postflop_loop_eq:
  "\<forall>j. i \<le> j \<and> j < N \<longrightarrow> map_get sm (rel_seat occ N k j) \<noteq> None \<Longrightarrow>
   postflop_loop sm occ N k i acc =
     Inr (acc @ map (\<lambda>j. \<lparr>slot.player = name (the (map_get sm (rel_seat occ N k j))),
                      seat = rel_seat occ N k j, position = spec_label N j, priority = j\<rparr>)
             [i..<N])"
proof (induction sm occ N k i acc rule: postflop_loop.induct)
  case (1 sm occ N k i acc)
  show ?case
  proof (cases "i < N")
    case True
    have u: "[i..<N] = i # [Suc i..<N]" using True by (rule upt_conv_Cons)
    from 1(2) True obtain p where p: "map_get sm (rel_seat occ N k i) = Some p" by auto
    have p': "map_get sm (occ ! nat ((k + int i + 1) mod int N)) = Some p"
      using p by (simp add: rel_seat_def)
    have rest: "\<forall>j. i + 1 \<le> j \<and> j < N \<longrightarrow> map_get sm (rel_seat occ N k j) \<noteq> None"
      using 1(2) by auto
    note ih = 1(1) [OF True refl refl refl refl p' rest]
    show ?thesis
      apply (subst postflop_loop.simps)
      using True p p' ih
      apply (simp add: Let_def u)
      apply (simp add: spec_label_chain rel_seat_def)
      done
  next
    case False
    then show ?thesis by (subst postflop_loop.simps) simp
  qed
qed

lemma preflop_push_loop_eq:
  "\<forall>j. i \<le> j \<and> j < N \<longrightarrow> j < length ps \<and> position_entry.player (ps ! j) \<noteq> None \<Longrightarrow>
   preflop_push_loop ps N i acc =
     Inr (acc @ map (\<lambda>j. \<lparr>slot.player = name (the (position_entry.player (ps ! j))),
                      seat = position_entry.seat (ps ! j),
                      position = position_entry.position (ps ! j),
                      priority = length acc + (j - i)\<rparr>)
             [i..<N])"
proof (induction ps N i acc rule: preflop_push_loop.induct)
  case (1 ps N i acc)
  show ?case
  proof (cases "i < N")
    case True
    have u: "[i..<N] = i # [Suc i..<N]" using True by (rule upt_conv_Cons)
    from 1(2) True have len: "i < length ps" by auto
    from 1(2) True obtain p where p: "position_entry.player (ps ! i) = Some p" by auto
    have n: "js_nth ps i = Some (ps ! i)" using len by (simp add: js_nth_def)
    have rest: "\<forall>j. i + 1 \<le> j \<and> j < N \<longrightarrow>
                  j < length ps \<and> position_entry.player (ps ! j) \<noteq> None"
      using 1(2) by auto
    note ih = 1(1) [OF True n p rest]
    have m: "map (\<lambda>j. \<lparr>slot.player = name (the (position_entry.player (ps ! j))),
                      seat = position_entry.seat (ps ! j),
                      position = position_entry.position (ps ! j),
                      priority = Suc (length acc + (j - Suc i))\<rparr>) [Suc i..<N]
           = map (\<lambda>j. \<lparr>slot.player = name (the (position_entry.player (ps ! j))),
                      seat = position_entry.seat (ps ! j),
                      position = position_entry.position (ps ! j),
                      priority = length acc + (j - i)\<rparr>) [Suc i..<N]"
      by (rule map_cong) auto
    show ?thesis
      apply (subst preflop_push_loop.simps)
      using True p n ih
      apply (simp add: u m)
      done
  next
    case False
    then show ?thesis by (subst preflop_push_loop.simps) simp
  qed
qed

section \<open>Seat rotation\<close>

lemma sorted_distinct_split:
  fixes xs :: "int list"
  assumes "sorted xs" "distinct xs" "k < length xs"
  shows "filter (\<lambda>s. xs ! k < s) xs = drop (Suc k) xs"
    and "filter (\<lambda>s. s \<le> xs ! k) xs = take (Suc k) xs"
proof -
  have ss: "sorted_wrt (<) xs" using assms(1,2) by (simp add: strict_sorted_iff)
  have lo: "\<forall>x \<in> set (take (Suc k) xs). x \<le> xs ! k"
  proof
    fix x assume "x \<in> set (take (Suc k) xs)"
    then obtain j where j: "j < length (take (Suc k) xs)" "take (Suc k) xs ! j = x"
      by (auto simp: in_set_conv_nth)
    then have "j \<le> k" "x = xs ! j" by auto
    then show "x \<le> xs ! k" using assms(1,3) by (simp add: sorted_nth_mono)
  qed
  have hi: "\<forall>x \<in> set (drop (Suc k) xs). xs ! k < x"
  proof
    fix x assume "x \<in> set (drop (Suc k) xs)"
    then obtain j where j: "j < length (drop (Suc k) xs)" "drop (Suc k) xs ! j = x"
      by (auto simp: in_set_conv_nth)
    then have "k < Suc k + j" "Suc k + j < length xs" "x = xs ! (Suc k + j)" by auto
    then show "xs ! k < x" using ss by (simp add: sorted_wrt_iff_nth_less)
  qed
  have lo': "\<forall>x \<in> set (take (Suc k) xs). \<not> xs ! k < x" using lo by auto
  have hi': "\<forall>x \<in> set (drop (Suc k) xs). \<not> x \<le> xs ! k" using hi by auto
  have "filter (\<lambda>s. xs ! k < s) xs =
          filter (\<lambda>s. xs ! k < s) (take (Suc k) xs)
          @ filter (\<lambda>s. xs ! k < s) (drop (Suc k) xs)"
    by (metis append_take_drop_id filter_append)
  also have "filter (\<lambda>s. xs ! k < s) (take (Suc k) xs) = []"
    using lo' by (simp only: filter_empty_conv)
  also have "filter (\<lambda>s. xs ! k < s) (drop (Suc k) xs) = drop (Suc k) xs"
    using hi by (simp only: filter_id_conv)
  finally show "filter (\<lambda>s. xs ! k < s) xs = drop (Suc k) xs" by simp
  have "filter (\<lambda>s. s \<le> xs ! k) xs =
          filter (\<lambda>s. s \<le> xs ! k) (take (Suc k) xs)
          @ filter (\<lambda>s. s \<le> xs ! k) (drop (Suc k) xs)"
    by (metis append_take_drop_id filter_append)
  also have "filter (\<lambda>s. s \<le> xs ! k) (drop (Suc k) xs) = []"
    using hi' by (simp only: filter_empty_conv)
  also have "filter (\<lambda>s. s \<le> xs ! k) (take (Suc k) xs) = take (Suc k) xs"
    using lo by (simp only: filter_id_conv)
  finally show "filter (\<lambda>s. s \<le> xs ! k) xs = take (Suc k) xs" by simp
qed

lemma rel_seat_nth:
  assumes "k < length occ" "i < length occ"
  shows "rel_seat occ (length occ) (int k) i = (drop (Suc k) occ @ take (Suc k) occ) ! i"
proof -
  let ?N = "length occ"
  have e: "nat ((int k + int i + 1) mod int ?N) = (k + i + 1) mod ?N"
    by (simp add: nat_mod_distrib nat_add_distrib)
  show ?thesis
  proof (cases "i < ?N - Suc k")
    case True
    then have "(k + i + 1) mod ?N = k + i + 1" by simp
    with True show ?thesis unfolding rel_seat_def e by (simp add: nth_append)
  next
    case False
    with assms have r: "k + i + 1 = ?N + (i - (?N - Suc k))" by simp
    have "(k + i + 1) mod ?N = i - (?N - Suc k)"
      unfolding r using assms by simp
    with False assms show ?thesis unfolding rel_seat_def e by (simp add: nth_append)
  qed
qed

lemma rotation_split:
  assumes b: "b \<in> player.seat ` set ps"
  shows "\<exists>k. indexOf (occupied ps) b = int k \<and> k < length (occupied ps)
             \<and> occupied ps ! k = b
             \<and> rotation ps b = drop (Suc k) (occupied ps) @ take (Suc k) (occupied ps)"
proof -
  let ?occ = "occupied ps"
  from b have m: "b \<in> set ?occ" by (simp add: occupied_props)
  from indexOf_present [OF m] obtain k where
    k: "indexOf ?occ b = int k" "k < length ?occ" "?occ ! k = b"
    by (metis nat_0_le)
  have "rotation ps b = drop (Suc k) ?occ @ take (Suc k) ?occ"
    unfolding rotation_def
    using sorted_distinct_split [OF occupied_props(1,2) k(2)] k(3) by simp
  with k show ?thesis by blast
qed

lemma rotation_props:
  assumes b: "b \<in> player.seat ` set ps"
  shows "length (rotation ps b) = card (player.seat ` set ps)"
    and "i < card (player.seat ` set ps) \<Longrightarrow>
           rel_seat (occupied ps) (length (occupied ps)) (indexOf (occupied ps) b) i
             = rotation ps b ! i"
    and "set (rotation ps b) = player.seat ` set ps"
    and "distinct (rotation ps b)"
    and "last (rotation ps b) = b"
proof -
  let ?occ = "occupied ps"
  from rotation_split [OF b] obtain k where
    k: "indexOf ?occ b = int k" "k < length ?occ" "?occ ! k = b"
    and r: "rotation ps b = drop (Suc k) ?occ @ take (Suc k) ?occ"
    by blast
  show "length (rotation ps b) = card (player.seat ` set ps)"
    unfolding r using k(2) by (simp add: occupied_props(4) [symmetric])
  show "set (rotation ps b) = player.seat ` set ps"
    unfolding r
    by (metis Un_commute append_take_drop_id occupied_props(3) set_append)
  show "distinct (rotation ps b)"
    unfolding r using occupied_props(2) [of ps]
    by (metis append_take_drop_id distinct_append inf_commute)
  show "rel_seat ?occ (length ?occ) (indexOf ?occ b) i = rotation ps b ! i"
    if "i < card (player.seat ` set ps)"
    using rel_seat_nth [OF k(2), of i] that unfolding r k(1) by (simp add: occupied_props(4))
  have t: "take (Suc k) ?occ = take k ?occ @ [?occ ! k]"
    using k(2) by (rule take_Suc_conv_app_nth)
  show "last (rotation ps b) = b" unfolding r t using k(3) by simp
qed

lemma seat_lookup:
  assumes b: "b \<in> player.seat ` set ps" and i: "i < card (player.seat ` set ps)"
  shows "rel_seat (occupied ps) (length (occupied ps)) (indexOf (occupied ps) b) i
           = rotation ps b ! i"
    and "map_get (build_seatMap ps)
           (rel_seat (occupied ps) (length (occupied ps)) (indexOf (occupied ps) b) i)
         = Some (holder ps (rotation ps b ! i))"
proof -
  show r: "rel_seat (occupied ps) (length (occupied ps)) (indexOf (occupied ps) b) i
             = rotation ps b ! i"
    using rotation_props(2) [OF b i] .
  have "rotation ps b ! i \<in> set (rotation ps b)"
    using i rotation_props(1) [OF b] by simp
  then have "rotation ps b ! i \<in> player.seat ` set ps"
    using rotation_props(3) [OF b] by simp
  then show "map_get (build_seatMap ps)
           (rel_seat (occupied ps) (length (occupied ps)) (indexOf (occupied ps) b) i)
         = Some (holder ps (rotation ps b ! i))"
    unfolding r by (simp add: seatMap_get)
qed

section \<open>The two order tables in closed form\<close>

lemma createPostflopOrder_eq:
  assumes b: "b \<in> player.seat ` set ps"
  shows "createPostflopOrder ps b = Inr (postflop_table ps b)"
proof -
  let ?N = "card (player.seat ` set ps)"
  let ?occ = "occupied ps"
  let ?k = "indexOf ?occ b"
  have len: "length ?occ = ?N" by (rule occupied_props(4))
  have found: "?k \<noteq> - 1" using b by (simp add: indexOf_absent occupied_props(3))
  have ok: "\<forall>j. 0 \<le> j \<and> j < ?N \<longrightarrow>
              map_get (build_seatMap ps) (rel_seat ?occ ?N ?k j) \<noteq> None"
    using seat_lookup(2) [OF b] by (simp add: len)
  have "createPostflopOrder ps b = postflop_loop (build_seatMap ps) ?occ ?N ?k 0 []"
    using found by (simp add: createPostflopOrder_def Let_def occupiedSeats_eq len)
  also have "\<dots> = Inr ([] @ map (\<lambda>j.
                      \<lparr>slot.player = name (the (map_get (build_seatMap ps) (rel_seat ?occ ?N ?k j))),
                       seat = rel_seat ?occ ?N ?k j, position = spec_label ?N j, priority = j\<rparr>)
             [0..<?N])"
    by (rule postflop_loop_eq [OF ok])
  also have "\<dots> = Inr (postflop_table ps b)"
    using seat_lookup [OF b] by (simp add: postflop_table_def slot_at_def len)
  finally show ?thesis .
qed

lemma createPreflopOrder_eq:
  assumes b: "b \<in> player.seat ` set ps" and n: "2 \<le> card (player.seat ` set ps)"
  shows "createPreflopOrder ps b = Inr (preflop_table ps b)"
proof -
  let ?N = "card (player.seat ` set ps)"
  let ?occ = "occupied ps"
  let ?k = "indexOf ?occ b"
  let ?sm = "build_seatMap ps"
  let ?pos = "map (\<lambda>j. \<lparr>position_entry.player = Some (holder ps (rotation ps b ! j)),
                      seat = rotation ps b ! j, position = spec_label ?N j, index = j\<rparr>)
                [0..<?N]"
  have len: "length ?occ = ?N" by (rule occupied_props(4))
  have found: "?k \<noteq> - 1" using b by (simp add: indexOf_absent occupied_props(3))
  have pos: "preflop_positions ?sm ?occ ?N ?k 0 [] = ?pos"
    unfolding preflop_positions_eq using seat_lookup [OF b] by (simp add: len)
  have ok: "\<forall>j. 2 \<le> j \<and> j < ?N \<longrightarrow>
              j < length ?pos \<and> position_entry.player (?pos ! j) \<noteq> None"
    by simp
  have loop: "preflop_push_loop ?pos ?N 2 [] =
      Inr (map (\<lambda>i. slot_at ps b i (spec_label ?N i) (i - 2)) [2..<?N])"
    unfolding preflop_push_loop_eq [OF ok] by (simp add: slot_at_def)
  have p0: "js_nth ?pos 0 = Some (?pos ! 0)" and p1: "js_nth ?pos 1 = Some (?pos ! 1)"
    using n by (simp_all add: js_nth_def)
  have e0: "?pos ! 0 = \<lparr>position_entry.player = Some (holder ps (rotation ps b ! 0)),
                      seat = rotation ps b ! 0, position = spec_label ?N 0, index = 0\<rparr>"
    using n by simp
  have e1: "?pos ! 1 = \<lparr>position_entry.player = Some (holder ps (rotation ps b ! 1)),
                      seat = rotation ps b ! 1, position = spec_label ?N 1, index = 1\<rparr>"
    using n by simp
  have "createPreflopOrder ps b =
      (case preflop_push_loop ?pos ?N 2 [] of
                 Inl e \<Rightarrow> Inl e
               | Inr order1 \<Rightarrow>
                   (case push_blind ?pos 0 ''SB'' order1 of
                      Inl e \<Rightarrow> Inl e
                    | Inr order2 \<Rightarrow> push_blind ?pos 1 ''BB'' order2))"
    using found by (simp add: createPreflopOrder_def Let_def occupiedSeats_eq len pos)
  also have "\<dots> = Inr (preflop_table ps b)"
    unfolding loop push_blind_def p0 p1 e0 e1 using n
    by (simp add: preflop_table_def slot_at_def)
  finally show ?thesis .
qed

section \<open>Facts about the closed forms\<close>

lemma drop2_take2:
  assumes "2 \<le> length xs"
  shows "drop 2 xs @ take 2 xs = map (\<lambda>i. xs ! i) [2..<length xs] @ [xs ! 0, xs ! 1]"
proof -
  have "drop 2 xs = drop 2 (map (\<lambda>i. xs ! i) [0..<length xs])" by (simp add: map_nth)
  also have "\<dots> = map (\<lambda>i. xs ! i) (drop 2 [0..<length xs])" by (rule drop_map)
  also have "drop 2 [0..<length xs] = [0 + 2..<length xs]" by (rule drop_upt)
  also have "[0 + 2..<length xs] = [2..<length xs]" by (simp add: numeral_2_eq_2)
  finally have d: "drop 2 xs = map (\<lambda>i. xs ! i) [2..<length xs]" .
  obtain x y zs where "xs = x # y # zs"
    using assms by (cases xs; cases "tl xs") auto
  then have t: "take 2 xs = [xs ! 0, xs ! 1]" by (simp add: numeral_2_eq_2)
  show ?thesis by (simp only: d t)
qed

lemma priorities_preflop:
  assumes "2 \<le> (N::nat)"
  shows "map (\<lambda>i. i - 2) [2..<N] @ [N - 2, N - 1] = [0..<N]"
proof (rule nth_equalityI)
  show "length (map (\<lambda>i. i - 2) [2..<N] @ [N - 2, N - 1]) = length [0..<N]"
    using assms by simp
next
  fix i
  assume "i < length (map (\<lambda>i. i - 2) [2..<N] @ [N - 2, N - 1])"
  then have i: "i < N" using assms by simp
  have lm: "length (map (\<lambda>i. i - 2) [2..<N]) = N - 2" by simp
  consider "i < N - 2" | "i = N - 2" | "i = N - 1" using i by linarith
  then show "(map (\<lambda>i. i - 2) [2..<N] @ [N - 2, N - 1]) ! i = [0..<N] ! i"
  proof cases
    case 1
    then have u: "[2..<N] ! i = 2 + i" by simp
    have "(map (\<lambda>i. i - 2) [2..<N] @ [N - 2, N - 1]) ! i = map (\<lambda>i. i - 2) [2..<N] ! i"
      using 1 by (simp only: nth_append lm if_True)
    also have "\<dots> = i" using 1 u by simp
    finally show ?thesis using i by simp
  next
    case 2
    then have "i = length (map (\<lambda>i. i - 2) [2..<N])" by simp
    then have "(map (\<lambda>i. i - 2) [2..<N] @ [N - 2, N - 1]) ! i = N - 2"
      by (simp only: nth_append_length)
    then show ?thesis using 2 i by simp
  next
    case 3
    then have "i = length (map (\<lambda>i. i - 2) [2..<N]) + 1" using assms by simp
    then have "(map (\<lambda>i. i - 2) [2..<N] @ [N - 2, N - 1]) ! i = [N - 2, N - 1] ! 1"
      by (simp only: nth_append_length_plus)
    then show ?thesis using 3 i by simp
  qed
qed

lemma preflop_table_length: "length (preflop_table ps b) = card (player.seat ` set ps) - 2 + 2"
  by (simp add: preflop_table_def)

lemma preflop_table_seats:
  assumes b: "b \<in> player.seat ` set ps" and n: "2 \<le> card (player.seat ` set ps)"
  shows "map slot.seat (preflop_table ps b) = drop 2 (rotation ps b) @ take 2 (rotation ps b)"
    and "map slot.player (preflop_table ps b) =
           map (\<lambda>s. name (holder ps s)) (drop 2 (rotation ps b) @ take 2 (rotation ps b))"
proof -
  let ?N = "card (player.seat ` set ps)"
  let ?rot = "rotation ps b"
  have len: "length ?rot = ?N" by (rule rotation_props(1) [OF b])
  have dt: "drop 2 ?rot @ take 2 ?rot = map (\<lambda>i. ?rot ! i) [2..<?N] @ [?rot ! 0, ?rot ! 1]"
    using drop2_take2 [of ?rot] n by (simp add: len)
  show "map slot.seat (preflop_table ps b) = drop 2 ?rot @ take 2 ?rot"
    unfolding dt by (simp add: preflop_table_def slot_at_def o_def)
  show "map slot.player (preflop_table ps b) =
          map (\<lambda>s. name (holder ps s)) (drop 2 ?rot @ take 2 ?rot)"
    unfolding dt by (simp add: preflop_table_def slot_at_def o_def)
qed

lemma preflop_table_priorities:
  assumes n: "2 \<le> card (player.seat ` set ps)"
  shows "map priority (preflop_table ps b) = [0..<card (player.seat ` set ps)]"
  using priorities_preflop [OF n] by (simp add: preflop_table_def slot_at_def o_def)

lemma preflop_table_blinds:
  "map slot.position (drop (card (player.seat ` set ps) - 2) (preflop_table ps b))
     = [''SB'', ''BB'']"
  by (simp add: preflop_table_def slot_at_def)

lemma preflop_table_nth:
  assumes n: "2 \<le> card (player.seat ` set ps)" and i: "i < card (player.seat ` set ps)"
  shows "slot.position (preflop_table ps b
            ! ((i + card (player.seat ` set ps) - 2) mod card (player.seat ` set ps)))
           = spec_label (card (player.seat ` set ps)) i"
    and "slot.seat (preflop_table ps b
            ! ((i + card (player.seat ` set ps) - 2) mod card (player.seat ` set ps)))
           = rotation ps b ! i"
proof -
  let ?N = "card (player.seat ` set ps)"
  let ?f = "\<lambda>i. slot_at ps b i (spec_label ?N i) (i - 2)"
  let ?pre = "map ?f [2..<?N] @ [slot_at ps b 0 ''SB'' (?N - 2), slot_at ps b 1 ''BB'' (?N - 1)]"
  have pre: "slot.position (?pre ! ((i + ?N - 2) mod ?N)) = spec_label ?N i
             \<and> slot.seat (?pre ! ((i + ?N - 2) mod ?N)) = rotation ps b ! i"
  proof -
    consider "i = 0" | "i = 1" | "2 \<le> i" by linarith
    then show ?thesis
    proof cases
      case 1
      have "(i + ?N - 2) mod ?N = length (map ?f [2..<?N])" using 1 n by simp
      then have "?pre ! ((i + ?N - 2) mod ?N) = slot_at ps b 0 ''SB'' (?N - 2)"
        by (simp only: nth_append_length)
      then show ?thesis using 1 by (simp add: slot_at_def spec_label_chain)
    next
      case 2
      have "(i + ?N - 2) mod ?N = length (map ?f [2..<?N]) + 1" using 2 n by simp
      then have "?pre ! ((i + ?N - 2) mod ?N) = slot_at ps b 1 ''BB'' (?N - 1)"
        by (simp only: nth_append_length_plus) simp
      then show ?thesis using 2 by (simp add: slot_at_def spec_label_chain)
    next
      case 3
      have "i + ?N - 2 = (i - 2) + ?N" using 3 by simp
      then have "(i + ?N - 2) mod ?N = (i - 2) mod ?N" by (simp only: mod_add_self2)
      also have "\<dots> = i - 2" using i by simp
      finally have e: "(i + ?N - 2) mod ?N = i - 2" .
      have "i - 2 < length (map ?f [2..<?N])" using 3 i by simp
      then have "?pre ! (i - 2) = map ?f [2..<?N] ! (i - 2)" by (simp only: nth_append if_True)
      also have "\<dots> = ?f ([2..<?N] ! (i - 2))" using 3 i by simp
      also have "[2..<?N] ! (i - 2) = 2 + (i - 2)" using 3 i by simp
      also have "2 + (i - 2) = i" using 3 by simp
      finally show ?thesis unfolding e by (simp add: slot_at_def)
    qed
  qed
  from pre show "slot.position (preflop_table ps b ! ((i + ?N - 2) mod ?N)) = spec_label ?N i"
    by (simp only: preflop_table_def)
  from pre show "slot.seat (preflop_table ps b ! ((i + ?N - 2) mod ?N)) = rotation ps b ! i"
    by (simp only: preflop_table_def)
qed

lemma postflop_table_seats:
  assumes b: "b \<in> player.seat ` set ps"
  shows "map slot.seat (postflop_table ps b) = rotation ps b"
    and "map slot.player (postflop_table ps b) = map (\<lambda>s. name (holder ps s)) (rotation ps b)"
proof -
  have len: "length (rotation ps b) = card (player.seat ` set ps)"
    by (rule rotation_props(1) [OF b])
  show "map slot.seat (postflop_table ps b) = rotation ps b"
    by (rule nth_equalityI) (simp_all add: len postflop_table_def slot_at_def)
  show "map slot.player (postflop_table ps b) = map (\<lambda>s. name (holder ps s)) (rotation ps b)"
    by (rule nth_equalityI) (simp_all add: len postflop_table_def slot_at_def)
qed

lemma postflop_table_priorities:
  "map priority (postflop_table ps b) = [0..<card (player.seat ` set ps)]"
  by (rule nth_equalityI) (simp_all add: postflop_table_def slot_at_def)

lemma postflop_table_nth:
  "i < card (player.seat ` set ps) \<Longrightarrow>
     postflop_table ps b ! i = slot_at ps b i (spec_label (card (player.seat ` set ps)) i) i"
  by (simp add: postflop_table_def)

lemma postflop_table_last:
  assumes b: "b \<in> player.seat ` set ps"
  shows "last (postflop_table ps b) =
           slot_at ps b (card (player.seat ` set ps) - 1)
             (spec_label (card (player.seat ` set ps)) (card (player.seat ` set ps) - 1))
             (card (player.seat ` set ps) - 1)"
    and "slot.seat (last (postflop_table ps b)) = b"
proof -
  let ?N = "card (player.seat ` set ps)"
  let ?rot = "rotation ps b"
  have len: "length ?rot = ?N" by (rule rotation_props(1) [OF b])
  have pos: "0 < ?N" using b by (auto simp: card_gt_0_iff)
  then have ne: "[0..<?N] \<noteq> []" by auto
  have lu: "last [0..<?N] = ?N - 1" using pos by simp
  show l: "last (postflop_table ps b) = slot_at ps b (?N - 1) (spec_label ?N (?N - 1)) (?N - 1)"
    unfolding postflop_table_def last_map [OF ne] lu by (rule refl)
  have "?rot \<noteq> []" using pos len by auto
  then have "last ?rot = ?rot ! (length ?rot - 1)" by (rule last_conv_nth)
  then have lr: "?rot ! (?N - 1) = b" using rotation_props(5) [OF b] len by simp
  show "slot.seat (last (postflop_table ps b)) = b"
    unfolding l using lr by (simp add: slot_at_def)
qed

text \<open>Table facts shared by the claims about seats and names.\<close>

lemma table_seats:
  assumes b: "b \<in> player.seat ` set ps" and n: "2 \<le> card (player.seat ` set ps)"
  shows "set (map slot.seat (preflop_table ps b)) = player.seat ` set ps"
    and "distinct (map slot.seat (preflop_table ps b))"
    and "set (map slot.seat (postflop_table ps b)) = player.seat ` set ps"
    and "distinct (map slot.seat (postflop_table ps b))"
proof -
  let ?rot = "rotation ps b"
  have s: "set (drop 2 ?rot @ take 2 ?rot) = set ?rot"
    by (metis Un_commute append_take_drop_id set_append)
  have d: "distinct (drop 2 ?rot @ take 2 ?rot)"
    using rotation_props(4) [OF b]
    by (metis append_take_drop_id distinct_append inf_commute)
  show "set (map slot.seat (preflop_table ps b)) = player.seat ` set ps"
    unfolding preflop_table_seats(1) [OF b n] s by (rule rotation_props(3) [OF b])
  show "distinct (map slot.seat (preflop_table ps b))"
    unfolding preflop_table_seats(1) [OF b n] by (rule d)
  show "set (map slot.seat (postflop_table ps b)) = player.seat ` set ps"
    unfolding postflop_table_seats(1) [OF b] by (rule rotation_props(3) [OF b])
  show "distinct (map slot.seat (postflop_table ps b))"
    unfolding postflop_table_seats(1) [OF b] by (rule rotation_props(4) [OF b])
qed

lemma table_names:
  assumes b: "b \<in> player.seat ` set ps" and n: "2 \<le> card (player.seat ` set ps)"
  shows "\<forall>sl \<in> set (preflop_table ps b). slot.player sl = name (holder ps (slot.seat sl))"
    and "\<forall>sl \<in> set (postflop_table ps b). slot.player sl = name (holder ps (slot.seat sl))"
proof -
  have "map slot.player (preflop_table ps b)
          = map (\<lambda>s. name (holder ps s)) (map slot.seat (preflop_table ps b))"
    by (simp only: preflop_table_seats [OF b n])
  then have "map slot.player (preflop_table ps b)
          = map (\<lambda>sl. name (holder ps (slot.seat sl))) (preflop_table ps b)"
    by (simp add: o_def)
  then show "\<forall>sl \<in> set (preflop_table ps b). slot.player sl = name (holder ps (slot.seat sl))"
    by (simp only: map_eq_conv)
  have "map slot.player (postflop_table ps b)
          = map (\<lambda>s. name (holder ps s)) (map slot.seat (postflop_table ps b))"
    by (simp only: postflop_table_seats [OF b])
  then have "map slot.player (postflop_table ps b)
          = map (\<lambda>sl. name (holder ps (slot.seat sl))) (postflop_table ps b)"
    by (simp add: o_def)
  then show "\<forall>sl \<in> set (postflop_table ps b). slot.player sl = name (holder ps (slot.seat sl))"
    by (simp only: map_eq_conv)
qed

lemma initializeHand_eq:
  assumes b: "b \<in> player.seat ` set ps" and n: "2 \<le> card (player.seat ` set ps)"
  shows "initializeHand this ps b h =
           Inr (this\<lparr>handNumber := Some h, buttonPosition := b,
                      playerStatus := foldl (\<lambda>m p. js_set m (name p) ''active'') [] ps,
                      currentActionIndex := initial_index,
                      absoluteOrder := \<lparr>preflop = preflop_table ps b,
                                        postflop = postflop_table ps b\<rparr>\<rparr>)"
  by (simp add: initializeHand_def createPreflopOrder_eq [OF b n] createPostflopOrder_eq [OF b])

section \<open>Active slots and recorded actions\<close>

lemma active_entries:
  "map slot.player (filter canAct (getActionOrder this street)) =
     map slot.player (activeSlots this street)"
  by (simp add: getActionOrder_def activeSlots_def orderTable_def filter_map o_def)

lemma active_count:
  "length (filter canAct (getActionOrder this street)) = length (activeSlots this street)"
  using arg_cong [OF active_entries, of length] by simp

lemma entries_for_Cons:
  "entries_for (a # entries) n =
     (if action_entry.player a = Some n then a # entries_for entries n
      else entries_for entries n)"
  by (simp add: entries_for_def)

lemma playerActions_get:
  assumes "n \<noteq> ''__proto__''"
  shows "js_get (foldl (\<lambda>m a. if truthy (action_entry.player a)
                         then js_set m (the (action_entry.player a)) (action a) else m)
              m0 entries) n =
     (if n \<noteq> [] \<and> entries_for entries n \<noteq> []
      then Own (action (last (entries_for entries n)))
      else js_get m0 n)"
proof (induction entries arbitrary: m0)
  case Nil
  then show ?case by (simp add: entries_for_def)
next
  case (Cons a entries)
  show ?case
  proof (cases "action_entry.player a")
    case None
    then show ?thesis by (simp add: Cons.IH entries_for_Cons)
  next
    case (Some s)
    then show ?thesis
      using assms by (auto simp: Cons.IH entries_for_Cons js_get_js_set)
  qed
qed

lemma playerActions_defined:
  assumes "n \<notin> set object_prototype_keys"
  shows "defined (js_get (foldl (\<lambda>m a. if truthy (action_entry.player a)
                         then js_set m (the (action_entry.player a)) (action a) else m)
              [] entries) n) = acted entries n"
proof -
  from assms proto_inherited have np: "n \<noteq> ''__proto__''" by auto
  show ?thesis
  proof (cases "n \<noteq> [] \<and> entries_for entries n \<noteq> []")
    case True
    then show ?thesis
      unfolding playerActions_get [OF np]
      by (cases "action (last (entries_for entries n))") (simp_all add: acted_def)
  next
    case False
    then show ?thesis
      unfolding playerActions_get [OF np] using assms
      by (auto simp: acted_def js_get_empty)
  qed
qed

section \<open>The cursors stay numbers\<close>

lemma cursors_ok_new: "cursors_ok new_manager"
  by (simp add: cursors_ok_def new_manager_def initial_index_def streets_def is_number_def
      js_get_def map_get_def)

lemma cursors_ok_endHand: "cursors_ok (endHand this)"
  by (simp add: cursors_ok_def endHand_def initial_index_def streets_def is_number_def
      js_get_def map_get_def)

lemma cursors_ok_initializeHand:
  "initializeHand this ps b h = Inr this' \<Longrightarrow> cursors_ok this'"
  by (auto simp: initializeHand_def cursors_ok_def initial_index_def streets_def is_number_def
      js_get_def map_get_def split: sum.splits)

lemma cursors_ok_updatePlayerStatus:
  "cursors_ok this \<Longrightarrow> cursors_ok (fst (updatePlayerStatus this n st))"
  by (simp add: updatePlayerStatus_def cursors_ok_def Let_def)

lemma cursors_ok_advanceToStreet:
  "cursors_ok this \<Longrightarrow> cursors_ok (fst (advanceToStreet this st))"
  by (simp add: advanceToStreet_def cursors_ok_def Let_def list_all_iff js_get_js_set
      is_number_def)

lemma cursors_ok_moveToNextPlayer:
  "cursors_ok this \<Longrightarrow> cursors_ok (fst (moveToNextPlayer this st))"
  by (auto simp: moveToNextPlayer_def cursors_ok_def Let_def list_all_iff js_get_js_set
      is_number_def split: jsprop.splits jsnum.splits)

lemma cursors_ok_number:
  assumes "cursors_ok this" and "st \<in> set streets"
  shows "\<exists>k. js_get (currentActionIndex this) st = Own (Num k)"
proof -
  from assms have n: "is_number (js_get (currentActionIndex this) st)"
    by (simp add: cursors_ok_def list_all_iff)
  show ?thesis
  proof (cases "js_get (currentActionIndex this) st")
    case (Own v)
    with n show ?thesis by (cases v) (simp_all add: is_number_def)
  next
    case Inherited
    with n show ?thesis by (simp add: is_number_def)
  next
    case Absent
    with n show ?thesis by (simp add: is_number_def)
  qed
qed

section \<open>The claims\<close>

text \<open>
  C1. For a player list with \<open>N \<ge> 2\<close> distinct occupied seats and a button seat that is
  occupied, \<open>createPreflopOrder\<close> returns the slots of the relative indices \<open>2..N-1\<close> in
  seat-rotation order, then the slot of index 0 and the slot of index 1; every slot
  carries the name of the entry that holds its seat, and the last two position labels
  are \<open>SB\<close> and \<open>BB\<close>, in this order.
\<close>

theorem C1_preflop_order:
  assumes n: "2 \<le> card (player.seat ` set players)"
    and b: "buttonSeat \<in> player.seat ` set players"
  shows "\<exists>order. createPreflopOrder players buttonSeat = Inr order
           \<and> map slot.seat order =
               drop 2 (rotation players buttonSeat) @ take 2 (rotation players buttonSeat)
           \<and> map slot.player order =
               map (\<lambda>s. name (holder players s))
                 (drop 2 (rotation players buttonSeat) @ take 2 (rotation players buttonSeat))
           \<and> map slot.position (drop (card (player.seat ` set players) - 2) order)
               = [''SB'', ''BB'']"
  unfolding createPreflopOrder_eq [OF b n]
  using preflop_table_seats [OF b n] preflop_table_blinds [of players buttonSeat]
  by simp

theorem C1_preflop_order_witness:
  "2 \<le> card (player.seat ` set example_players)
   \<and> 7 \<in> player.seat ` set example_players
   \<and> (\<exists>order. createPreflopOrder example_players 7 = Inr order
         \<and> map slot.seat order = [5, 7, 1, 3]
         \<and> map slot.player order = [''P5'', ''P7'', ''P1'', ''P3'']
         \<and> map slot.position (drop 2 order) = [''SB'', ''BB''])"
proof -
  have h1: "2 \<le> card (player.seat ` set example_players)"
    and h2: "7 \<in> player.seat ` set example_players"
    by (simp_all add: example_players_def)
  have c: "card (player.seat ` set example_players) = 4"
    by (simp add: example_players_def)
  have r: "rotation example_players 7 = [1, 3, 5, 7]" by code_simp
  have hs: "name (holder example_players 1) = ''P1''" "name (holder example_players 3) = ''P3''"
    "name (holder example_players 5) = ''P5''" "name (holder example_players 7) = ''P7''"
    by (simp_all add: holder_def example_players_def)
  from C1_preflop_order [OF h1 h2] h1 h2 show ?thesis
    by (simp add: r c hs)
qed

text \<open>
  C2, as amended. For a player list with \<open>N \<ge> 2\<close> distinct occupied seats and an
  occupied button seat, \<open>createPostflopOrder\<close> returns the \<open>N\<close> slots in seat-rotation
  order, from the seat immediately after the button to the button seat itself; the first
  two labels are \<open>SB\<close> and \<open>BB\<close>, and the last slot, the one of the button seat, is
  labelled \<open>BTN\<close> when \<open>N \<ge> 3\<close> and \<open>BB\<close> when \<open>N = 2\<close>.
\<close>

theorem C2_postflop_order:
  assumes n: "2 \<le> card (player.seat ` set players)"
    and b: "buttonSeat \<in> player.seat ` set players"
  shows "\<exists>order. createPostflopOrder players buttonSeat = Inr order
           \<and> map slot.seat order = rotation players buttonSeat
           \<and> map slot.player order =
               map (\<lambda>s. name (holder players s)) (rotation players buttonSeat)
           \<and> slot.position (order ! 0) = ''SB''
           \<and> slot.position (order ! 1) = ''BB''
           \<and> slot.seat (last order) = buttonSeat
           \<and> slot.position (last order) =
               (if card (player.seat ` set players) = 2 then ''BB'' else ''BTN'')"
proof -
  let ?N = "card (player.seat ` set players)"
  let ?order = "postflop_table players buttonSeat"
  have p0: "slot.position (?order ! 0) = ''SB''" and p1: "slot.position (?order ! 1) = ''BB''"
    using n by (simp_all add: postflop_table_nth slot_at_def spec_label_chain)
  have pl: "slot.position (last ?order) = (if ?N = 2 then ''BB'' else ''BTN'')"
    unfolding postflop_table_last(1) [OF b] using n
    by (auto simp: slot_at_def spec_label_chain)
  show ?thesis
    unfolding createPostflopOrder_eq [OF b]
    using postflop_table_seats [OF b] postflop_table_last(2) [OF b] p0 p1 pl by simp
qed

theorem C2_postflop_order_witness:
  "2 \<le> card (player.seat ` set example_players)
   \<and> 7 \<in> player.seat ` set example_players
   \<and> (\<exists>order. createPostflopOrder example_players 7 = Inr order
         \<and> map slot.seat order = [1, 3, 5, 7]
         \<and> map slot.player order = [''P1'', ''P3'', ''P5'', ''P7'']
         \<and> slot.position (order ! 0) = ''SB''
         \<and> slot.position (order ! 1) = ''BB''
         \<and> slot.seat (last order) = 7
         \<and> slot.position (last order) = ''BTN'')"
proof -
  have h1: "2 \<le> card (player.seat ` set example_players)"
    and h2: "7 \<in> player.seat ` set example_players"
    by (simp_all add: example_players_def)
  have c: "card (player.seat ` set example_players) = 4"
    by (simp add: example_players_def)
  have r: "rotation example_players 7 = [1, 3, 5, 7]" by code_simp
  have hs: "name (holder example_players 1) = ''P1''" "name (holder example_players 3) = ''P3''"
    "name (holder example_players 5) = ''P5''" "name (holder example_players 7) = ''P7''"
    by (simp_all add: holder_def example_players_def)
  from C2_postflop_order [OF h1 h2] h1 h2 show ?thesis
    by (simp add: r c hs)
qed

text \<open>
  C2 as stated fails heads-up: with seats 1 and 2 and the button on seat 1 the postflop
  table is \<open>SB\<close> (seat 2), \<open>BB\<close> (seat 1), so its last entry is not \<open>BTN\<close>.
\<close>

theorem C2_postflop_order_counterexample:
  "2 \<le> card (player.seat ` set heads_up_players)
   \<and> 1 \<in> player.seat ` set heads_up_players
   \<and> createPostflopOrder heads_up_players 1 =
       Inr [\<lparr>slot.player = ''B'', seat = 2, position = ''SB'', priority = 0\<rparr>,
            \<lparr>slot.player = ''A'', seat = 1, position = ''BB'', priority = 1\<rparr>]
   \<and> slot.position (last [\<lparr>slot.player = ''B'', seat = 2, position = ''SB'', priority = 0\<rparr>,
            \<lparr>slot.player = ''A'', seat = 1, position = ''BB'', priority = 1\<rparr>]) \<noteq> ''BTN''"
proof -
  have h: "2 \<le> card (player.seat ` set heads_up_players)"
    "1 \<in> player.seat ` set heads_up_players"
    by (simp_all add: heads_up_players_def)
  have t: "createPostflopOrder heads_up_players 1 =
       Inr [\<lparr>slot.player = ''B'', seat = 2, position = ''SB'', priority = 0\<rparr>,
            \<lparr>slot.player = ''A'', seat = 1, position = ''BB'', priority = 1\<rparr>]"
    by code_simp
  from h t show ?thesis by simp
qed

text \<open>
  C3. For \<open>N \<ge> 2\<close> occupied seats and every relative index \<open>i < N\<close>, the slot of index
  \<open>i\<close> carries the label that the specification's first-match rule list gives for
  \<open>(N, i)\<close>, in the postflop table (at place \<open>i\<close>) and in the preflop table (at place
  \<open>(i + N - 2) mod N\<close>, which holds the same seat): one rule labels both tables.
\<close>

theorem C3_position_labels:
  assumes n: "2 \<le> card (player.seat ` set players)"
    and b: "buttonSeat \<in> player.seat ` set players"
    and i: "i < card (player.seat ` set players)"
  shows "\<exists>pre post. createPreflopOrder players buttonSeat = Inr pre
           \<and> createPostflopOrder players buttonSeat = Inr post
           \<and> slot.position (post ! i) = spec_label (card (player.seat ` set players)) i
           \<and> slot.position (pre ! ((i + card (player.seat ` set players) - 2)
                                      mod card (player.seat ` set players)))
               = spec_label (card (player.seat ` set players)) i
           \<and> slot.seat (pre ! ((i + card (player.seat ` set players) - 2)
                                      mod card (player.seat ` set players)))
               = slot.seat (post ! i)"
  unfolding createPreflopOrder_eq [OF b n] createPostflopOrder_eq [OF b]
  using preflop_table_nth [OF n i, of buttonSeat] postflop_table_nth [OF i, of buttonSeat]
  by (simp add: slot_at_def)

theorem C3_position_labels_witness:
  "2 \<le> card (player.seat ` set example_players)
   \<and> 7 \<in> player.seat ` set example_players
   \<and> (3::nat) < card (player.seat ` set example_players)
   \<and> (\<exists>pre post. createPreflopOrder example_players 7 = Inr pre
         \<and> createPostflopOrder example_players 7 = Inr post
         \<and> slot.position (post ! 3) = ''BTN''
         \<and> slot.position (pre ! 1) = ''BTN''
         \<and> slot.seat (pre ! 1) = slot.seat (post ! 3))"
proof -
  have h1: "2 \<le> card (player.seat ` set example_players)"
    and h2: "7 \<in> player.seat ` set example_players"
    and h3: "(3::nat) < card (player.seat ` set example_players)"
    by (simp_all add: example_players_def)
  have c: "card (player.seat ` set example_players) = 4"
    by (simp add: example_players_def)
  have l: "spec_label 4 3 = ''BTN''" by (simp add: spec_label_chain)
  from C3_position_labels [OF h1 h2 h3] h1 h2 h3 show ?thesis
    by (simp add: c l)
qed

text \<open>
  C4. For a street whose cursor holds the number \<open>k\<close> (as the cursors of the four
  streets always do): if some slot of the selected table has an active player,
  \<open>getCurrentPlayer\<close> returns the slot at place \<open>k mod\<close> (number of active slots) of the
  table filtered to active players in table order; that slot is in the table and its
  player is active, so neither folded nor all-in. If no slot has an active player it
  returns \<open>null\<close>.
\<close>

theorem C4_current_player:
  assumes k: "js_get (currentActionIndex this) street = Own (Num k)"
  shows "((\<exists>p \<in> set (orderTable this street).
             js_get (playerStatus this) (slot.player p) = Own ''active'')
            \<longrightarrow> (\<exists>p. getCurrentPlayer this street = Slot p
                    \<and> p = activeSlots this street ! (k mod length (activeSlots this street))
                    \<and> p \<in> set (orderTable this street)
                    \<and> js_get (playerStatus this) (slot.player p) = Own ''active''
                    \<and> js_get (playerStatus this) (slot.player p) \<noteq> Own ''folded''
                    \<and> js_get (playerStatus this) (slot.player p) \<noteq> Own ''allin''))
         \<and> ((\<forall>p \<in> set (orderTable this street).
                js_get (playerStatus this) (slot.player p) \<noteq> Own ''active'')
            \<longrightarrow> getCurrentPlayer this street = Null)"
proof (intro conjI impI)
  assume "\<exists>p \<in> set (orderTable this street).
            js_get (playerStatus this) (slot.player p) = Own ''active''"
  then have ne: "activeSlots this street \<noteq> []"
    by (auto simp: activeSlots_def filter_empty_conv)
  let ?a = "activeSlots this street"
  let ?p = "?a ! (k mod length ?a)"
  have lt: "k mod length ?a < length ?a" using ne by simp
  then have mem: "?p \<in> set ?a" by (rule nth_mem)
  then have tbl: "?p \<in> set (orderTable this street)"
    and act: "js_get (playerStatus this) (slot.player ?p) = Own ''active''"
    by (simp_all add: activeSlots_def)
  have "getCurrentPlayer this street = Slot ?p"
    using ne lt k
    by (simp add: getCurrentPlayer_def Let_def js_nth_def activeSlots_def orderTable_def)
  with tbl act show "\<exists>p. getCurrentPlayer this street = Slot p
                    \<and> p = activeSlots this street ! (k mod length (activeSlots this street))
                    \<and> p \<in> set (orderTable this street)
                    \<and> js_get (playerStatus this) (slot.player p) = Own ''active''
                    \<and> js_get (playerStatus this) (slot.player p) \<noteq> Own ''folded''
                    \<and> js_get (playerStatus this) (slot.player p) \<noteq> Own ''allin''"
    by simp
next
  assume "\<forall>p \<in> set (orderTable this street).
            js_get (playerStatus this) (slot.player p) \<noteq> Own ''active''"
  then have "activeSlots this street = []"
    by (simp add: activeSlots_def filter_empty_conv)
  then show "getCurrentPlayer this street = Null"
    by (simp add: getCurrentPlayer_def Let_def activeSlots_def orderTable_def)
qed

theorem C4_current_player_witness:
  "js_get (currentActionIndex example_hand_later) ''preflop'' = Own (Num 4)
   \<and> map slot.player (activeSlots example_hand_later ''preflop'') = [''P7'', ''P1'', ''P3'']
   \<and> getCurrentPlayer example_hand_later ''preflop''
       = Slot \<lparr>slot.player = ''P1'', seat = 1, position = ''SB'', priority = 2\<rparr>
   \<and> js_get (currentActionIndex example_hand_none_active) ''flop'' = Own (Num 0)
   \<and> length (orderTable example_hand_none_active ''flop'') = 4
   \<and> activeSlots example_hand_none_active ''flop'' = []
   \<and> getCurrentPlayer example_hand_none_active ''flop'' = Null"
proof -
  have k: "js_get (currentActionIndex example_hand_later) ''preflop'' = Own (Num 4)"
    by code_simp
  have a: "activeSlots example_hand_later ''preflop'' =
             [\<lparr>slot.player = ''P7'', seat = 7, position = ''BTN'', priority = 1\<rparr>,
              \<lparr>slot.player = ''P1'', seat = 1, position = ''SB'', priority = 2\<rparr>,
              \<lparr>slot.player = ''P3'', seat = 3, position = ''BB'', priority = 3\<rparr>]"
    by code_simp
  have "activeSlots example_hand_later ''preflop'' \<noteq> []" by (simp add: a)
  then have e: "\<exists>p \<in> set (orderTable example_hand_later ''preflop'').
             js_get (playerStatus example_hand_later) (slot.player p) = Own ''active''"
    by (simp add: activeSlots_def filter_empty_conv)
  from C4_current_player [OF k] e
  have "\<exists>p. getCurrentPlayer example_hand_later ''preflop'' = Slot p
          \<and> p = activeSlots example_hand_later ''preflop''
                  ! (4 mod length (activeSlots example_hand_later ''preflop''))"
    by blast
  then have g: "getCurrentPlayer example_hand_later ''preflop''
       = Slot \<lparr>slot.player = ''P1'', seat = 1, position = ''SB'', priority = 2\<rparr>"
    by (simp add: a)
  have k0: "js_get (currentActionIndex example_hand_none_active) ''flop'' = Own (Num 0)"
    by code_simp
  have a0: "activeSlots example_hand_none_active ''flop'' = []" by code_simp
  then have e0: "\<forall>p \<in> set (orderTable example_hand_none_active ''flop'').
         js_get (playerStatus example_hand_none_active) (slot.player p) \<noteq> Own ''active''"
    by (simp add: activeSlots_def filter_empty_conv)
  have l0: "length (orderTable example_hand_none_active ''flop'') = 4" by code_simp
  from C4_current_player [OF k0] e0
  have g0: "getCurrentPlayer example_hand_none_active ''flop'' = Null" by blast
  from k a g k0 a0 l0 g0 show ?thesis by simp
qed

text \<open>
  C5. Whenever at most one slot of the street's table has an active player,
  \<open>isBettingRoundComplete\<close> returns true, whatever \<open>actions\<close> is: any array of entries,
  or an object keyed by player.
\<close>

theorem C5_round_complete_few_active:
  assumes "length (activeSlots this street) \<le> 1"
  shows "isBettingRoundComplete this street actions = Inr True"
  using assms by (simp add: isBettingRoundComplete_def Let_def active_count)

theorem C5_round_complete_few_active_witness:
  "length (activeSlots example_hand_one_left ''preflop'') \<le> 1
   \<and> map slot.player (activeSlots example_hand_one_left ''preflop'') = [''P3'']
   \<and> isBettingRoundComplete example_hand_one_left ''preflop'' (ActionArray []) = Inr True
   \<and> isBettingRoundComplete example_hand_one_left ''preflop''
         (ActionObject example_actions_object) = Inr True"
proof -
  have a: "map slot.player (activeSlots example_hand_one_left ''preflop'') = [''P3'']"
    by code_simp
  then have h: "length (activeSlots example_hand_one_left ''preflop'') \<le> 1"
    using length_map [of slot.player "activeSlots example_hand_one_left ''preflop''"] by simp
  from C5_round_complete_few_active [OF h, of "ActionArray []"]
    C5_round_complete_few_active [OF h, of "ActionObject example_actions_object"] h a
  show ?thesis by simp
qed

text \<open>
  C6, as amended. When more than one player is active and no active player's name is a
  property name of \<open>Object.prototype\<close>: for an \<open>actions\<close> array of \<open>{player, action}\<close>
  entries, \<open>isBettingRoundComplete\<close> returns true if and only if every active player has
  a non-empty name and at least one entry whose \<open>player\<close> is that name, the last such
  entry carrying an action, and false otherwise; for an \<open>actions\<close> object keyed by player
  it raises a \<open>TypeError\<close>. Only the presence of an action is checked, no amount.
\<close>

theorem C6_round_complete_iff:
  assumes "1 < length (activeSlots this street)"
    and "\<forall>p \<in> set (activeSlots this street). slot.player p \<notin> set object_prototype_keys"
  shows "isBettingRoundComplete this street actions =
           (case actions of
              ActionObject obj \<Rightarrow> Inl TypeError
            | ActionArray entries \<Rightarrow>
                Inr (\<forall>p \<in> set (activeSlots this street). acted entries (slot.player p)))
         \<and> (isBettingRoundComplete this street actions = Inr True \<longleftrightarrow>
              (\<exists>entries. actions = ActionArray entries
                 \<and> (\<forall>p \<in> set (activeSlots this street). acted entries (slot.player p))))"
proof -
  have eq: "isBettingRoundComplete this street actions =
           (case actions of
              ActionObject obj \<Rightarrow> Inl TypeError
            | ActionArray entries \<Rightarrow>
                Inr (\<forall>p \<in> set (activeSlots this street). acted entries (slot.player p)))"
  proof (cases actions)
    case (ActionObject obj)
    with assms(1) show ?thesis
      by (simp add: isBettingRoundComplete_def Let_def active_count)
  next
    case (ActionArray entries)
    let ?pa = "foldl (\<lambda>m a. if truthy (action_entry.player a)
                            then js_set m (the (action_entry.player a)) (action a) else m)
                 [] entries"
    have "list_all (\<lambda>p. defined (js_get ?pa (slot.player p)))
            (filter canAct (getActionOrder this street))
          \<longleftrightarrow> (\<forall>n \<in> set (map slot.player (filter canAct (getActionOrder this street))).
                 defined (js_get ?pa n))"
      by (simp add: list_all_iff)
    also have "\<dots> \<longleftrightarrow> (\<forall>n \<in> set (map slot.player (activeSlots this street)).
                           defined (js_get ?pa n))"
      by (simp only: active_entries)
    also have "\<dots> \<longleftrightarrow> (\<forall>p \<in> set (activeSlots this street). acted entries (slot.player p))"
      using assms(2) by (simp add: playerActions_defined)
    finally have all: "list_all (\<lambda>p. defined (js_get ?pa (slot.player p)))
            (filter canAct (getActionOrder this street))
          \<longleftrightarrow> (\<forall>p \<in> set (activeSlots this street). acted entries (slot.player p))" .
    show ?thesis
      using assms(1) ActionArray all
      by (simp add: isBettingRoundComplete_def Let_def active_count)
  qed
  have "isBettingRoundComplete this street actions = Inr True \<longleftrightarrow>
           (\<exists>entries. actions = ActionArray entries
              \<and> (\<forall>p \<in> set (activeSlots this street). acted entries (slot.player p)))"
    unfolding eq by (cases actions) simp_all
  with eq show ?thesis by (rule conjI)
qed

theorem C6_round_complete_iff_witness:
  "1 < length (activeSlots example_hand ''preflop'')
   \<and> map slot.player (activeSlots example_hand ''preflop'') = [''P7'', ''P1'', ''P3'']
   \<and> ''P7'' \<notin> set object_prototype_keys
   \<and> ''P1'' \<notin> set object_prototype_keys
   \<and> ''P3'' \<notin> set object_prototype_keys
   \<and> acted example_actions ''P7''
   \<and> acted example_actions ''P1''
   \<and> acted example_actions ''P3''
   \<and> isBettingRoundComplete example_hand ''preflop'' (ActionArray example_actions) = Inr True
   \<and> \<not> acted example_actions_blank ''P7''
   \<and> isBettingRoundComplete example_hand ''preflop'' (ActionArray example_actions_blank)
       = Inr False
   \<and> isBettingRoundComplete example_hand ''preflop'' (ActionObject example_actions_object)
       = Inl TypeError"
proof -
  have a: "activeSlots example_hand ''preflop'' =
             [\<lparr>slot.player = ''P7'', seat = 7, position = ''BTN'', priority = 1\<rparr>,
              \<lparr>slot.player = ''P1'', seat = 1, position = ''SB'', priority = 2\<rparr>,
              \<lparr>slot.player = ''P3'', seat = 3, position = ''BB'', priority = 3\<rparr>]"
    by code_simp
  have h: "1 < length (activeSlots example_hand ''preflop'')" by (simp add: a)
  have n: "''P7'' \<notin> set object_prototype_keys" "''P1'' \<notin> set object_prototype_keys"
    "''P3'' \<notin> set object_prototype_keys"
    by (simp_all add: object_prototype_keys_def)
  then have h2: "\<forall>p \<in> set (activeSlots example_hand ''preflop'').
                   slot.player p \<notin> set object_prototype_keys"
    by (simp add: a)
  have e: "acted example_actions ''P7''" "acted example_actions ''P1''"
    "acted example_actions ''P3''" "\<not> acted example_actions_blank ''P7''"
    by (simp_all add: acted_def entries_for_def example_actions_def example_actions_blank_def)
  from C6_round_complete_iff [OF h h2, THEN conjunct1, of "ActionArray example_actions"] e
  have r1: "isBettingRoundComplete example_hand ''preflop'' (ActionArray example_actions)
              = Inr True"
    by (simp add: a)
  from C6_round_complete_iff [OF h h2, THEN conjunct1, of "ActionArray example_actions_blank"] e
  have r2: "isBettingRoundComplete example_hand ''preflop''
              (ActionArray example_actions_blank) = Inr False"
    by (simp add: a)
  from C6_round_complete_iff [OF h h2, THEN conjunct1, of "ActionObject example_actions_object"]
  have r3: "isBettingRoundComplete example_hand ''preflop''
              (ActionObject example_actions_object) = Inl TypeError"
    by simp
  from h n e r1 r2 r3 show ?thesis by (simp add: a)
qed

text \<open>
  C6 as stated fails four ways, each with more than one active player. The object keyed
  by player of the specification's scenario holds an action of every active player, and
  the call raises a \<open>TypeError\<close>. With a player of the empty name and an entry of each
  player, the guard \<open>if (a.player)\<close> skips the entry of the empty name and the round is
  not complete. With an entry of each player of which one has no \<open>action\<close>, the round is
  not complete. With a player named \<open>constructor\<close>, who has no entry, the round is
  complete, because \<open>playerActions\<close> inherits a property of that name.
\<close>

theorem C6_round_complete_iff_counterexample:
  "1 < length (activeSlots example_hand ''preflop'')
   \<and> every_active_has_entry example_hand ''preflop'' (ActionObject example_actions_object)
   \<and> isBettingRoundComplete example_hand ''preflop'' (ActionObject example_actions_object)
       = Inl TypeError
   \<and> initializeHand new_manager unnamed_players 1 ''1'' = Inr unnamed_hand
   \<and> map slot.player (activeSlots unnamed_hand ''preflop'') = [''B'', []]
   \<and> every_active_has_entry unnamed_hand ''preflop'' (ActionArray unnamed_actions)
   \<and> isBettingRoundComplete unnamed_hand ''preflop'' (ActionArray unnamed_actions)
       = Inr False
   \<and> every_active_has_entry example_hand ''preflop'' (ActionArray example_actions_blank)
   \<and> isBettingRoundComplete example_hand ''preflop'' (ActionArray example_actions_blank)
       = Inr False
   \<and> initializeHand new_manager inherited_name_players 1 ''1'' = Inr inherited_name_hand
   \<and> map slot.player (activeSlots inherited_name_hand ''preflop'') = [''B'', ''constructor'']
   \<and> \<not> every_active_has_entry inherited_name_hand ''preflop''
         (ActionArray inherited_name_actions)
   \<and> isBettingRoundComplete inherited_name_hand ''preflop''
         (ActionArray inherited_name_actions) = Inr True"
  by code_simp

text \<open>
  C7. For a player list with \<open>N \<ge> 2\<close> distinct occupied seats and an occupied button
  seat, \<open>initializeHand\<close> succeeds, both order tables have length \<open>N\<close>, and in each the
  priorities are \<open>0, 1, ..., N-1\<close> in table order: the priority of a slot is its place.
\<close>

theorem C7_lengths_priorities:
  assumes n: "2 \<le> card (player.seat ` set players)"
    and b: "buttonSeat \<in> player.seat ` set players"
  shows "\<exists>this'. initializeHand this players buttonSeat handId = Inr this'
           \<and> length (preflop (absoluteOrder this')) = card (player.seat ` set players)
           \<and> length (postflop (absoluteOrder this')) = card (player.seat ` set players)
           \<and> map priority (preflop (absoluteOrder this'))
               = [0..<card (player.seat ` set players)]
           \<and> map priority (postflop (absoluteOrder this'))
               = [0..<card (player.seat ` set players)]"
proof -
  have l1: "length (preflop_table players buttonSeat) = card (player.seat ` set players)"
    using n by (simp add: preflop_table_length)
  have l2: "length (postflop_table players buttonSeat) = card (player.seat ` set players)"
    by (simp add: postflop_table_def)
  show ?thesis
    unfolding initializeHand_eq [OF b n]
    using l1 l2 preflop_table_priorities [OF n, of buttonSeat]
      postflop_table_priorities [of players buttonSeat]
    by simp
qed

theorem C7_lengths_priorities_witness:
  "2 \<le> card (player.seat ` set example_players)
   \<and> 7 \<in> player.seat ` set example_players
   \<and> (\<exists>this'. initializeHand new_manager example_players 7 ''1'' = Inr this'
         \<and> length (preflop (absoluteOrder this')) = 4
         \<and> length (postflop (absoluteOrder this')) = 4
         \<and> map priority (preflop (absoluteOrder this')) = [0..<4]
         \<and> map priority (postflop (absoluteOrder this')) = [0..<4])"
proof -
  have h1: "2 \<le> card (player.seat ` set example_players)"
    and h2: "7 \<in> player.seat ` set example_players"
    by (simp_all add: example_players_def)
  have c: "card (player.seat ` set example_players) = 4"
    by (simp add: example_players_def)
  from C7_lengths_priorities [OF h1 h2, of new_manager "''1''"] h1 h2 show ?thesis
    by (simp add: c)
qed

text \<open>
  C8. When the button seat is not the seat of any player of the list, both
  \<open>createPreflopOrder\<close> and \<open>createPostflopOrder\<close> return the empty table, without
  raising.
\<close>

theorem C8_button_not_occupied:
  assumes "buttonSeat \<notin> player.seat ` set players"
  shows "createPreflopOrder players buttonSeat = Inr []
         \<and> createPostflopOrder players buttonSeat = Inr []"
proof -
  have "indexOf (occupied players) buttonSeat = - 1"
    using assms by (simp add: indexOf_absent occupied_props(3))
  then show ?thesis
    by (simp add: createPreflopOrder_def createPostflopOrder_def Let_def occupiedSeats_eq)
qed

theorem C8_button_not_occupied_witness:
  "2 \<notin> player.seat ` set example_players
   \<and> createPreflopOrder example_players 2 = Inr []
   \<and> createPostflopOrder example_players 2 = Inr []"
proof -
  have h: "2 \<notin> player.seat ` set example_players" by (simp add: example_players_def)
  from C8_button_not_occupied [OF h] h show ?thesis by simp
qed

text \<open>
  C9. After \<open>endHand\<close>, for every street: \<open>getCurrentPlayer\<close> returns \<open>null\<close>,
  \<open>getActionOrder\<close> returns the empty sequence, the status registry is empty, the cursor
  of each of the four streets is 0, the hand number is cleared and both tables are empty.
  A following \<open>initializeHand\<close> gives what it gives on a freshly constructed manager;
  for \<open>N \<ge> 2\<close> occupied seats and an occupied button it succeeds and its tables are the
  results of \<open>createPreflopOrder\<close> and \<open>createPostflopOrder\<close>.
\<close>

theorem C9_endHand:
  "getCurrentPlayer (endHand this) street = Null
   \<and> getActionOrder (endHand this) street = []
   \<and> playerStatus (endHand this) = []
   \<and> js_get (currentActionIndex (endHand this)) ''preflop'' = Own (Num 0)
   \<and> js_get (currentActionIndex (endHand this)) ''flop'' = Own (Num 0)
   \<and> js_get (currentActionIndex (endHand this)) ''turn'' = Own (Num 0)
   \<and> js_get (currentActionIndex (endHand this)) ''river'' = Own (Num 0)
   \<and> js_keys (currentActionIndex (endHand this)) = streets
   \<and> handNumber (endHand this) = None
   \<and> absoluteOrder (endHand this) = \<lparr>preflop = [], postflop = []\<rparr>
   \<and> initializeHand (endHand this) players buttonSeat handId
       = initializeHand new_manager players buttonSeat handId
   \<and> (2 \<le> card (player.seat ` set players) \<and> buttonSeat \<in> player.seat ` set players
        \<longrightarrow> (\<exists>this'. initializeHand (endHand this) players buttonSeat handId = Inr this'
               \<and> createPreflopOrder players buttonSeat = Inr (preflop (absoluteOrder this'))
               \<and> createPostflopOrder players buttonSeat
                   = Inr (postflop (absoluteOrder this'))))"
proof (intro conjI impI)
  show "getCurrentPlayer (endHand this) street = Null"
    by (simp add: getCurrentPlayer_def endHand_def)
  show "getActionOrder (endHand this) street = []"
    by (simp add: getActionOrder_def endHand_def)
  show "playerStatus (endHand this) = []" by (simp add: endHand_def)
  show "js_get (currentActionIndex (endHand this)) ''preflop'' = Own (Num 0)"
    by (simp add: endHand_def initial_index_def js_get_def map_get_def)
  show "js_get (currentActionIndex (endHand this)) ''flop'' = Own (Num 0)"
    by (simp add: endHand_def initial_index_def js_get_def map_get_def)
  show "js_get (currentActionIndex (endHand this)) ''turn'' = Own (Num 0)"
    by (simp add: endHand_def initial_index_def js_get_def map_get_def)
  show "js_get (currentActionIndex (endHand this)) ''river'' = Own (Num 0)"
    by (simp add: endHand_def initial_index_def js_get_def map_get_def)
  show "js_keys (currentActionIndex (endHand this)) = streets"
    by (simp add: endHand_def initial_index_def js_keys_def map_keys_def streets_def)
  show "handNumber (endHand this) = None" by (simp add: endHand_def)
  show "absoluteOrder (endHand this) = \<lparr>preflop = [], postflop = []\<rparr>"
    by (simp add: endHand_def)
  show "initializeHand (endHand this) players buttonSeat handId
          = initializeHand new_manager players buttonSeat handId"
    by (simp add: initializeHand_def endHand_def new_manager_def split: sum.splits)
next
  assume "2 \<le> card (player.seat ` set players) \<and> buttonSeat \<in> player.seat ` set players"
  then have n: "2 \<le> card (player.seat ` set players)"
    and b: "buttonSeat \<in> player.seat ` set players" by simp_all
  show "\<exists>this'. initializeHand (endHand this) players buttonSeat handId = Inr this'
               \<and> createPreflopOrder players buttonSeat = Inr (preflop (absoluteOrder this'))
               \<and> createPostflopOrder players buttonSeat
                   = Inr (postflop (absoluteOrder this'))"
    unfolding initializeHand_eq [OF b n] createPreflopOrder_eq [OF b n]
      createPostflopOrder_eq [OF b]
    by simp
qed

theorem C9_endHand_witness:
  "2 \<le> card (player.seat ` set example_players)
   \<and> 7 \<in> player.seat ` set example_players
   \<and> getCurrentPlayer (endHand example_hand) ''flop'' = Null
   \<and> getActionOrder (endHand example_hand) ''flop'' = []
   \<and> (\<exists>this'. initializeHand (endHand example_hand) example_players 7 ''2'' = Inr this'
         \<and> createPreflopOrder example_players 7 = Inr (preflop (absoluteOrder this'))
         \<and> createPostflopOrder example_players 7 = Inr (postflop (absoluteOrder this')))"
proof -
  have h: "2 \<le> card (player.seat ` set example_players)
           \<and> 7 \<in> player.seat ` set example_players"
    by (simp add: example_players_def)
  from C9_endHand [of example_hand "''flop''" example_players 7 "''2''"] h
  show ?thesis by blast
qed

text \<open>
  C10, as amended. When the player list has \<open>N \<ge> 2\<close> distinct occupied seats and the
  button seat is occupied, \<open>initializeHand\<close> succeeds and each order table has exactly
  one slot for each distinct seat (length \<open>N\<close>, whatever the number of players); the slot
  of a seat carries the name of the last entry of the list with that seat; the registry
  has only names of the list, and every name of the list other than \<open>__proto__\<close> is
  marked active. So a player with another name than \<open>__proto__\<close>, whose name is the
  name of no seat's last entry, is active in the registry and appears in neither table.
\<close>

theorem C10_duplicate_seats:
  assumes n: "2 \<le> card (player.seat ` set players)"
    and b: "buttonSeat \<in> player.seat ` set players"
  shows "\<exists>this'. initializeHand this players buttonSeat handId = Inr this'
           \<and> length (preflop (absoluteOrder this')) = card (player.seat ` set players)
           \<and> length (postflop (absoluteOrder this')) = card (player.seat ` set players)
           \<and> distinct (map slot.seat (preflop (absoluteOrder this')))
           \<and> distinct (map slot.seat (postflop (absoluteOrder this')))
           \<and> set (map slot.seat (preflop (absoluteOrder this'))) = player.seat ` set players
           \<and> set (map slot.seat (postflop (absoluteOrder this'))) = player.seat ` set players
           \<and> (\<forall>sl \<in> set (preflop (absoluteOrder this')) \<union> set (postflop (absoluteOrder this')).
                 slot.player sl = name (holder players (slot.seat sl)))
           \<and> set (js_keys (playerStatus this')) \<subseteq> name ` set players
           \<and> (\<forall>p \<in> set players. name p \<noteq> ''__proto__''
                 \<longrightarrow> js_get (playerStatus this') (name p) = Own ''active'')
           \<and> (\<forall>p \<in> set players.
                 name p \<noteq> ''__proto__''
                 \<and> (\<forall>s \<in> player.seat ` set players. name (holder players s) \<noteq> name p)
                 \<longrightarrow> js_get (playerStatus this') (name p) = Own ''active''
                     \<and> name p \<notin> slot.player ` (set (preflop (absoluteOrder this'))
                                                \<union> set (postflop (absoluteOrder this'))))"
proof -
  let ?pre = "preflop_table players buttonSeat"
  let ?post = "postflop_table players buttonSeat"
  let ?reg = "foldl (\<lambda>m p. js_set m (name p) ''active'') [] players"
  have l1: "length ?pre = card (player.seat ` set players)"
    using n by (simp add: preflop_table_length)
  have l2: "length ?post = card (player.seat ` set players)"
    by (simp add: postflop_table_def)
  note seats = table_seats [OF b n]
  have names: "\<forall>sl \<in> set ?pre \<union> set ?post. slot.player sl = name (holder players (slot.seat sl))"
    using table_names [OF b n] by blast
  have keys: "set (js_keys ?reg) \<subseteq> name ` set players"
    using registry_keys [of "[]" players] by (auto simp: js_keys_def map_keys_def)
  have act: "\<forall>p \<in> set players. name p \<noteq> ''__proto__''
               \<longrightarrow> js_get ?reg (name p) = Own ''active''"
    by (simp add: registry_get)
  have absent: "\<forall>p \<in> set players.
                 name p \<noteq> ''__proto__''
                 \<and> (\<forall>s \<in> player.seat ` set players. name (holder players s) \<noteq> name p)
                 \<longrightarrow> js_get ?reg (name p) = Own ''active''
                     \<and> name p \<notin> slot.player ` (set ?pre \<union> set ?post)"
  proof (intro ballI impI conjI)
    fix p
    assume p: "p \<in> set players"
      and hyp: "name p \<noteq> ''__proto__''
                \<and> (\<forall>s \<in> player.seat ` set players. name (holder players s) \<noteq> name p)"
    then have np: "name p \<noteq> ''__proto__''"
      and no: "\<forall>s \<in> player.seat ` set players. name (holder players s) \<noteq> name p"
      by simp_all
    show "js_get ?reg (name p) = Own ''active''" using act p np by blast
    show "name p \<notin> slot.player ` (set ?pre \<union> set ?post)"
    proof
      assume "name p \<in> slot.player ` (set ?pre \<union> set ?post)"
      then obtain sl where sl': "name p = slot.player sl" "sl \<in> set ?pre \<union> set ?post"
        by (rule imageE)
      then have sl: "sl \<in> set ?pre \<union> set ?post" "slot.player sl = name p" by simp_all
      from sl(1) have "slot.seat sl \<in> set (map slot.seat ?pre) \<union> set (map slot.seat ?post)"
        by auto
      then have "slot.seat sl \<in> player.seat ` set players"
        unfolding seats(1) seats(3) by simp
      with no have "name (holder players (slot.seat sl)) \<noteq> name p" by blast
      with names sl show False by simp
    qed
  qed
  let ?this' = "this\<lparr>handNumber := Some handId, buttonPosition := buttonSeat,
                      playerStatus := ?reg, currentActionIndex := initial_index,
                      absoluteOrder := \<lparr>preflop = ?pre, postflop = ?post\<rparr>\<rparr>"
  have sel: "preflop (absoluteOrder ?this') = ?pre" "postflop (absoluteOrder ?this') = ?post"
    "playerStatus ?this' = ?reg"
    by simp_all
  show ?thesis
    unfolding initializeHand_eq [OF b n]
    apply (rule exI [of _ ?this'])
    unfolding sel
    apply (intro conjI refl l1 l2 seats names keys act absent)
    done
qed

theorem C10_duplicate_seats_witness:
  "2 \<le> card (player.seat ` set shared_seat_players)
   \<and> 2 \<in> player.seat ` set shared_seat_players
   \<and> \<lparr>name = ''A'', player.seat = 1\<rparr> \<in> set shared_seat_players
   \<and> ''A'' \<noteq> ''__proto__''
   \<and> player.seat ` set shared_seat_players = {1, 2}
   \<and> name (holder shared_seat_players 1) = ''B''
   \<and> name (holder shared_seat_players 2) = ''C''
   \<and> (\<exists>this'. initializeHand new_manager shared_seat_players 2 ''1'' = Inr this'
         \<and> length (preflop (absoluteOrder this')) = 2
         \<and> length (postflop (absoluteOrder this')) = 2
         \<and> js_get (playerStatus this') ''A'' = Own ''active''
         \<and> ''A'' \<notin> slot.player ` (set (preflop (absoluteOrder this'))
                                    \<union> set (postflop (absoluteOrder this'))))"
proof -
  have h1: "2 \<le> card (player.seat ` set shared_seat_players)"
    and h2: "2 \<in> player.seat ` set shared_seat_players"
    and h3: "\<lparr>name = ''A'', player.seat = 1\<rparr> \<in> set shared_seat_players"
    by (simp_all add: shared_seat_players_def)
  have c: "card (player.seat ` set shared_seat_players) = 2"
    by (simp add: shared_seat_players_def)
  have h4: "\<forall>s \<in> player.seat ` set shared_seat_players.
              name (holder shared_seat_players s) \<noteq> ''A''"
    by (simp add: shared_seat_players_def holder_def)
  from C10_duplicate_seats [OF h1 h2, of new_manager "''1''"] obtain this' where
    t: "initializeHand new_manager shared_seat_players 2 ''1'' = Inr this'"
      "length (preflop (absoluteOrder this')) = card (player.seat ` set shared_seat_players)"
      "length (postflop (absoluteOrder this')) = card (player.seat ` set shared_seat_players)"
      "\<forall>p \<in> set shared_seat_players.
         name p \<noteq> ''__proto__''
         \<and> (\<forall>s \<in> player.seat ` set shared_seat_players.
               name (holder shared_seat_players s) \<noteq> name p)
         \<longrightarrow> js_get (playerStatus this') (name p) = Own ''active''
             \<and> name p \<notin> slot.player ` (set (preflop (absoluteOrder this'))
                                        \<union> set (postflop (absoluteOrder this')))"
    by (elim exE conjE) (rule that; assumption)
  from t(4) h3 have
    "name \<lparr>name = ''A'', player.seat = 1\<rparr> \<noteq> ''__proto__''
     \<and> (\<forall>s \<in> player.seat ` set shared_seat_players.
           name (holder shared_seat_players s) \<noteq> name \<lparr>name = ''A'', player.seat = 1\<rparr>)
     \<longrightarrow> js_get (playerStatus this') (name \<lparr>name = ''A'', player.seat = 1\<rparr>)
           = Own ''active''
         \<and> name \<lparr>name = ''A'', player.seat = 1\<rparr>
             \<notin> slot.player ` (set (preflop (absoluteOrder this'))
                                \<union> set (postflop (absoluteOrder this')))"
    by (rule bspec)
  with h4 have
    "js_get (playerStatus this') ''A'' = Own ''active''
     \<and> ''A'' \<notin> slot.player ` (set (preflop (absoluteOrder this'))
                                \<union> set (postflop (absoluteOrder this')))"
    by simp
  moreover have "player.seat ` set shared_seat_players = {1, 2}"
    "name (holder shared_seat_players 1) = ''B''" "name (holder shared_seat_players 2) = ''C''"
    by (auto simp: shared_seat_players_def holder_def)
  ultimately show ?thesis using t(1,2,3) h1 h2 h3 by (simp add: c)
qed

text \<open>
  C10 as stated fails two ways. When the button seat is not occupied: two players share
  seat 1, the button is on seat 5, and both tables are empty although there is one
  distinct seat. When a player is named \<open>__proto__\<close>: that player shares seat 1 with
  another, the hand is set up, and the registry has no status for the name, since the
  write at line 50 stores nothing.
\<close>

theorem C10_duplicate_seats_counterexample:
  "initializeHand new_manager one_seat_players 5 ''1'' =
     Inr \<lparr>handNumber = Some ''1'', buttonPosition = 5,
          absoluteOrder = \<lparr>preflop = [], postflop = []\<rparr>,
          currentStreet = ''preflop'',
          currentActionIndex = initial_index,
          playerStatus = [(''A'', ''active''), (''B'', ''active'')]\<rparr>
   \<and> card (player.seat ` set one_seat_players) = 1
   \<and> length ([] :: slot list) \<noteq> card (player.seat ` set one_seat_players)
   \<and> \<lparr>name = ''__proto__'', player.seat = 1\<rparr> \<in> set proto_players
   \<and> initializeHand new_manager proto_players 2 ''1'' =
       Inr \<lparr>handNumber = Some ''1'', buttonPosition = 2,
            absoluteOrder =
              \<lparr>preflop =
                 [\<lparr>slot.player = ''B'', seat = 1, position = ''SB'', priority = 0\<rparr>,
                  \<lparr>slot.player = ''C'', seat = 2, position = ''BB'', priority = 1\<rparr>],
               postflop =
                 [\<lparr>slot.player = ''B'', seat = 1, position = ''SB'', priority = 0\<rparr>,
                  \<lparr>slot.player = ''C'', seat = 2, position = ''BB'', priority = 1\<rparr>]\<rparr>,
            currentStreet = ''preflop'',
            currentActionIndex = initial_index,
            playerStatus = [(''B'', ''active''), (''C'', ''active'')]\<rparr>
   \<and> js_get [(''B'', ''active''), (''C'', ''active'')] ''__proto__'' \<noteq> Own ''active''"
proof -
  have i: "initializeHand new_manager one_seat_players 5 ''1'' =
     Inr \<lparr>handNumber = Some ''1'', buttonPosition = 5,
          absoluteOrder = \<lparr>preflop = [], postflop = []\<rparr>,
          currentStreet = ''preflop'',
          currentActionIndex = initial_index,
          playerStatus = [(''A'', ''active''), (''B'', ''active'')]\<rparr>"
    by code_simp
  have c: "card (player.seat ` set one_seat_players) = 1"
    by (simp add: one_seat_players_def)
  have m: "\<lparr>name = ''__proto__'', player.seat = 1\<rparr> \<in> set proto_players"
    by (simp add: proto_players_def)
  have j: "initializeHand new_manager proto_players 2 ''1'' =
       Inr \<lparr>handNumber = Some ''1'', buttonPosition = 2,
            absoluteOrder =
              \<lparr>preflop =
                 [\<lparr>slot.player = ''B'', seat = 1, position = ''SB'', priority = 0\<rparr>,
                  \<lparr>slot.player = ''C'', seat = 2, position = ''BB'', priority = 1\<rparr>],
               postflop =
                 [\<lparr>slot.player = ''B'', seat = 1, position = ''SB'', priority = 0\<rparr>,
                  \<lparr>slot.player = ''C'', seat = 2, position = ''BB'', priority = 1\<rparr>]\<rparr>,
            currentStreet = ''preflop'',
            currentActionIndex = initial_index,
            playerStatus = [(''B'', ''active''), (''C'', ''active'')]\<rparr>"
    by code_simp
  have g: "js_get [(''B'', ''active''), (''C'', ''active'')] ''__proto__'' \<noteq> Own ''active''"
    by code_simp
  from i c m j g show ?thesis by simp
qed

text \<open>
  With a single occupied seat that holds the button, \<open>createPreflopOrder\<close> raises a
  \<open>TypeError\<close> at \<open>positions[1].player\<close>, and \<open>initializeHand\<close> with it.
\<close>

lemma single_seat_raises:
  "createPreflopOrder one_seat_players 1 = Inl TypeError
   \<and> initializeHand new_manager one_seat_players 1 ''1'' = Inl TypeError"
  by code_simp

text \<open>
  For a street that is no own key of \<open>currentActionIndex\<close>, \<open>getCurrentPlayer\<close> returns
  \<open>undefined\<close> as soon as a player is active.
\<close>

lemma unknown_street_undefined:
  "getCurrentPlayer example_hand ''showdown'' = Undefined
   \<and> getCurrentPlayer example_hand ''constructor'' = Undefined"
  by code_simp

end
